theory Spec2Isabelle
  imports Main "HOL-Library.Word"
begin

section \<open>JavaScript values and objects\<close>

text \<open>
  The loader of \<^verbatim>\<open>document_loaders/web/oracleai.ts\<close> handles values of type
  \<^verbatim>\<open>any\<close>. The model keeps the values the code can meet: \<^verbatim>\<open>undefined\<close>,
  \<^verbatim>\<open>null\<close>, strings, numbers, and the members of \<^verbatim>\<open>Object.prototype\<close> that a
  property read finds through the prototype chain. A number is an integer of
  \<open>-2^53 .. 2^53 - 1\<close>, kept as a 54-bit word read in two's complement: every such
  integer is a JavaScript number and prints in plain decimal. \<open>Builtin k\<close> is the member
  of \<^verbatim>\<open>Object.prototype\<close> named \<open>k\<close> (a function, or, for \<^verbatim>\<open>__proto__\<close>, the
  prototype object itself).
\<close>

datatype jsval = Undefined | Null | Str string | Num "54 word" | Builtin string

text \<open>What the database driver puts into a row: \<^verbatim>\<open>null\<close>, a string or a number.\<close>

datatype dbval = DbNull | DbStr string | DbNum "54 word"

fun of_db :: "dbval \<Rightarrow> jsval" where
  "of_db DbNull = Null"
| "of_db (DbStr s) = Str s"
| "of_db (DbNum n) = Num n"

text \<open>
  The own property names of \<^verbatim>\<open>Object.prototype\<close>. A read of a property that an
  object does not have itself finds the member of that name there, and \<^verbatim>\<open>undefined\<close>
  for every other name.
\<close>

definition object_prototype_names :: "string list" where
  "object_prototype_names =
     [''constructor'', ''__defineGetter__'', ''__defineSetter__'', ''hasOwnProperty'',
      ''__lookupGetter__'', ''__lookupSetter__'', ''isPrototypeOf'', ''propertyIsEnumerable'',
      ''toString'', ''valueOf'', ''__proto__'', ''toLocaleString'']"

definition inherited :: "string \<Rightarrow> jsval" where
  "inherited k = (if k \<in> set object_prototype_names then Builtin k else Undefined)"

text \<open>
  A row is a plain object made by the driver, with the row's data as its own properties;
  \<open>getprop row k\<close> is the read \<^verbatim>\<open>row[k]\<close>.
\<close>

type_synonym row = "string \<rightharpoonup> dbval"

definition getprop :: "row \<Rightarrow> string \<Rightarrow> jsval" where
  "getprop r k = (case r k of None \<Rightarrow> inherited k | Some d \<Rightarrow> of_db d)"

text \<open>
  An object the code builds with \<^verbatim>\<open>{}\<close> and fills by assignment: its own properties,
  and whether its prototype is still \<^verbatim>\<open>Object.prototype\<close>. The assignment
  \<^verbatim>\<open>ob[k] = v\<close> stores an own property, except for the key \<^verbatim>\<open>__proto__\<close> while the
  object is linked to \<^verbatim>\<open>Object.prototype\<close> and has no own property of that name: then
  it runs the inherited setter, which stores nothing; it cuts the link when \<open>v\<close> is
  \<^verbatim>\<open>null\<close>, keeps it when \<open>v\<close> is \<^verbatim>\<open>Object.prototype\<close>, and ignores a \<open>v\<close> that is
  not an object (no other object reaches such an assignment in this code).
\<close>

type_synonym jsobj = "string \<rightharpoonup> jsval"

record pobj =
  props :: jsobj
  linked :: bool

definition new_object :: pobj where
  "new_object = \<lparr> props = Map.empty, linked = True \<rparr>"

definition pget :: "pobj \<Rightarrow> string \<Rightarrow> jsval" where
  "pget ob k =
     (case props ob k of
        Some v \<Rightarrow> v
      | None \<Rightarrow> if linked ob then inherited k else Undefined)"

definition pset :: "pobj \<Rightarrow> string \<Rightarrow> jsval \<Rightarrow> pobj" where
  "pset ob k v =
     (if k = ''__proto__'' \<and> linked ob \<and> props ob k = None then
        (if v = Null then ob\<lparr>linked := False\<rparr> else ob)
      else ob\<lparr>props := (props ob)(k \<mapsto> v)\<rparr>)"

text \<open>
  The same assignment on the parser's metadata object, whose values are strings: under
  the key \<^verbatim>\<open>__proto__\<close> it stores nothing and leaves the prototype alone.
\<close>

definition set_string :: "(string \<rightharpoonup> string) \<Rightarrow> string \<Rightarrow> string \<Rightarrow> (string \<rightharpoonup> string)" where
  "set_string m k v = (if k = ''__proto__'' then m else m(k \<mapsto> v))"

text \<open>Truthiness, as \<^verbatim>\<open>if (v)\<close>, \<^verbatim>\<open>!v\<close> and \<^verbatim>\<open>v || d\<close> read it.\<close>

fun truthy :: "jsval \<Rightarrow> bool" where
  "truthy Undefined = False"
| "truthy Null = False"
| "truthy (Str s) = (s \<noteq> [])"
| "truthy (Num n) = (n \<noteq> 0)"
| "truthy (Builtin k) = True"

text \<open>\<^verbatim>\<open>String.prototype.startsWith\<close>.\<close>

definition startsWith :: "string \<Rightarrow> string \<Rightarrow> bool" where
  "startsWith s p = (take (length p) s = p)"

section \<open>ParseOracleDocMetadata\<close>

text \<open>
  The class has two fields, \<^verbatim>\<open>metadata\<close> (an object with string values, given by
  its own properties; its prototype stays \<^verbatim>\<open>Object.prototype\<close>) and
  \<^verbatim>\<open>match\<close>. An attribute is a pair of a name and a value of type
  \<^verbatim>\<open>string | null\<close>.
\<close>

record parser =
  metadata :: "string \<rightharpoonup> string"
  match :: bool

definition new_parser :: parser where
  "new_parser = \<lparr> metadata = Map.empty, match = False \<rparr>"

type_synonym attr = "string \<times> string option"

text \<open>
  The body of the \<^verbatim>\<open>attrs.forEach\<close> callback of \<^verbatim>\<open>handleStartTag\<close>, on the pair of
  locals \<^verbatim>\<open>entry\<close> (\<^verbatim>\<open>string | undefined\<close>) and \<^verbatim>\<open>content\<close>
  (\<^verbatim>\<open>string | null\<close>):
  \<^verbatim>\<open>if (name === "name") entry = value ?? ""; if (name === "content") content = value;\<close>
\<close>

fun scan_attr :: "string option \<times> string option \<Rightarrow> attr \<Rightarrow> string option \<times> string option" where
  "scan_attr (entry, content) (name, v) =
     (if name = ''name'' then Some (case v of None \<Rightarrow> [] | Some s \<Rightarrow> s) else entry,
      if name = ''content'' then v else content)"

definition scan_attrs :: "attr list \<Rightarrow> string option \<times> string option" where
  "scan_attrs attrs = foldl scan_attr (None, None) attrs"

text \<open>
  \<^verbatim>\<open>handleStartTag\<close>. The guard \<^verbatim>\<open>if (entry)\<close> is false both when \<^verbatim>\<open>entry\<close> is
  \<^verbatim>\<open>undefined\<close> and when it is the empty string.
\<close>

definition handleStartTag :: "string \<Rightarrow> attr list \<Rightarrow> parser \<Rightarrow> parser" where
  "handleStartTag tag attrs p =
     (if tag = ''meta'' then
        (case scan_attrs attrs of
           (Some entry, content) \<Rightarrow>
             if entry \<noteq> [] then
               p\<lparr>metadata := set_string (metadata p) entry
                    (case content of None \<Rightarrow> ''N/A'' | Some c \<Rightarrow> c)\<rparr>
             else p
         | (None, content) \<Rightarrow> p)
      else if tag = ''title'' then p\<lparr>match := True\<rparr>
      else p)"

text \<open>\<^verbatim>\<open>handleData\<close>.\<close>

definition handleData :: "string \<Rightarrow> parser \<Rightarrow> parser" where
  "handleData d p =
     (if match p then p\<lparr>metadata := (metadata p)(''title'' \<mapsto> d), match := False\<rparr> else p)"

text \<open>
  \<^verbatim>\<open>parse\<close> hands the text to the streaming tokenizer of \<^verbatim>\<open>htmlparser2\<close>, which
  calls \<^verbatim>\<open>onopentag\<close> and \<^verbatim>\<open>ontext\<close> in document order. The tokenizer is a library;
  what it does to the parser is the sequence of events it raises.
\<close>

datatype event = OpenTag string "attr list" | Text string

fun handle_event :: "parser \<Rightarrow> event \<Rightarrow> parser" where
  "handle_event p (OpenTag tag attrs) = handleStartTag tag attrs p"
| "handle_event p (Text d) = handleData d p"

definition feed :: "event list \<Rightarrow> parser \<Rightarrow> parser" where
  "feed es p = foldl handle_event p es"

definition parse :: "(string \<Rightarrow> event list) \<Rightarrow> string \<Rightarrow> parser \<Rightarrow> parser" where
  "parse tokenize htmlString p = feed (tokenize htmlString) p"

fun is_open :: "event \<Rightarrow> bool" where
  "is_open (OpenTag tag attrs) = True"
| "is_open (Text d) = False"

fun opens_title :: "event \<Rightarrow> bool" where
  "opens_title (OpenTag tag attrs) = (tag = ''title'')"
| "opens_title (Text d) = False"

text \<open>The value of the last attribute of a given name, if there is one.\<close>

definition last_attr :: "string \<Rightarrow> attr list \<Rightarrow> string option option" where
  "last_attr k attrs = map_of (rev attrs) k"


section \<open>OracleDocReader.generateObjectId\<close>

text \<open>
  What the code can throw: \<^verbatim>\<open>new Error(msg)\<close>, a \<^verbatim>\<open>TypeError\<close> or
  \<^verbatim>\<open>RangeError\<close> of the runtime, and whatever a collaborator (the database driver,
  the file system) rejects with.
\<close>

datatype error = Error string | TypeError string | RangeError string | Thrown string

type_synonym byte = "8 word"

text \<open>
  \<^verbatim>\<open>Buffer.alloc(4)\<close> followed by \<^verbatim>\<open>writeUInt32BE(v)\<close>: the four bytes of \<open>v\<close>, most
  significant first. Node checks the range of \<open>v\<close> and throws a \<^verbatim>\<open>RangeError\<close>
  (\<^verbatim>\<open>ERR_OUT_OF_RANGE\<close>) outside \<open>0 .. 2^32 - 1\<close>.
\<close>

definition writeUInt32BE :: "int \<Rightarrow> error + byte list" where
  "writeUInt32BE v =
     (if 0 \<le> v \<and> v \<le> 4294967295 then
        Inr [word_of_int (v div 16777216), word_of_int (v div 65536),
             word_of_int (v div 256), word_of_int v]
      else Inl (RangeError ''ERR_OUT_OF_RANGE''))"

text \<open>\<^verbatim>\<open>buf.toString("hex")\<close>: two lower-case digits per byte.\<close>

definition hex_digit :: "nat \<Rightarrow> char" where
  "hex_digit n = ''0123456789abcdef'' ! n"

definition hex_byte :: "byte \<Rightarrow> string" where
  "hex_byte b = [hex_digit (unat b div 16), hex_digit (unat b mod 16)]"

definition toHex :: "byte list \<Rightarrow> string" where
  "toHex bs = concat (map hex_byte bs)"

text \<open>\<^verbatim>\<open>String.prototype.padStart\<close> with a one-character filler, and \<^verbatim>\<open>charAt\<close>
  (the empty string when the index is out of range).\<close>

definition padStart :: "nat \<Rightarrow> char \<Rightarrow> string \<Rightarrow> string" where
  "padStart n c s = replicate (n - length s) c @ s"

definition charAt :: "string \<Rightarrow> nat \<Rightarrow> string" where
  "charAt s i = (if i < length s then [s ! i] else [])"

text \<open>
  The surroundings of one call: \<^verbatim>\<open>Date.now()\<close> in milliseconds, the values of the
  sixteen \<^verbatim>\<open>Math.floor(Math.random() * 62)\<close> of the seed synthesis (the \<open>k\<close>-th draw),
  and the value of \<^verbatim>\<open>Math.floor(Math.random() * Math.pow(2, 32))\<close>, an integer of
  \<open>0 .. 2^32 - 1\<close> since \<^verbatim>\<open>Math.random()\<close> lies in \<open>[0, 1)\<close>.
\<close>

record id_env =
  now_ms :: int
  seed_draw :: "nat \<Rightarrow> nat"
  counter_draw :: "32 word"

definition alphabet :: string where
  "alphabet = ''abcdefghijklmnopqrstuvwxyzABCDEFGHIJKLMNOPQRSTUVWXYZ0123456789''"

definition random_seed :: "(nat \<Rightarrow> nat) \<Rightarrow> string" where
  "random_seed draw = concat (map (\<lambda>k. charAt alphabet (draw k)) [0..<16])"

text \<open>\<^verbatim>\<open>if (!inputString) inputString = ...\<close>: \<^verbatim>\<open>null\<close> and the empty string are
  both replaced.\<close>

definition effective_seed :: "id_env \<Rightarrow> string option \<Rightarrow> string" where
  "effective_seed env inputString =
     (case inputString of
        None \<Rightarrow> random_seed (seed_draw env)
      | Some s \<Rightarrow> if s = [] then random_seed (seed_draw env) else s)"

text \<open>
  \<^verbatim>\<open>generateObjectId\<close>. The hash \<^verbatim>\<open>crypto.createHash("sha256").update(s).digest()\<close>
  is a library function and a parameter here.
\<close>

definition generateObjectId :: "(string \<Rightarrow> byte list) \<Rightarrow> id_env \<Rightarrow> string option \<Rightarrow> error + string" where
  "generateObjectId sha256 env inputString =
     (let seed = effective_seed env inputString;
          timestamp = now_ms env div 1000
      in case writeUInt32BE timestamp of
           Inl e \<Rightarrow> Inl e
         | Inr timestampBin \<Rightarrow>
             let truncatedHashVal = take 8 (sha256 seed)
             in case writeUInt32BE (uint (counter_draw env)) of
                  Inl e \<Rightarrow> Inl e
                | Inr counterBin \<Rightarrow>
                    let objectId = timestampBin @ truncatedHashVal @ counterBin;
                        objectIdHex = padStart 32 (CHR ''0'') (toHex objectId)
                    in Inr (take 32 objectIdHex))"

definition is_lower_hex :: "char \<Rightarrow> bool" where
  "is_lower_hex c = (c \<in> set ''0123456789abcdef'')"

definition is_alnum :: "char \<Rightarrow> bool" where
  "is_alnum c = (c \<in> set alphabet)"

section \<open>The database connection\<close>

text \<open>
  The statements the code sends: the catalog lookup with its two binds, the main query
  (its text, into which the identifiers are spliced, and the bind \<^verbatim>\<open>:params\<close>), the
  session-identity query, and the PL/SQL block of the file path with its two input binds.
\<close>

datatype statement =
    ColSql string string
  | MainSql string string
  | UserSql
  | ExtractSql "byte list" string

text \<open>A large object handed out by the driver, given by what draining it yields.\<close>

datatype lob = Lob "error + string"

record out_binds =
  ob_mdata :: "lob option"
  ob_text :: "lob option"

record result =
  rows :: "row list option"
  outBinds :: "out_binds option"

text \<open>
  The connection answers a statement with a result or rejects; its answer may depend on
  how many statements went before. \<open>execute\<close> appends the statement to the log of round
  trips.
\<close>

type_synonym conn = "nat \<Rightarrow> statement \<Rightarrow> error + result"

definition execute :: "conn \<Rightarrow> statement list \<Rightarrow> statement \<Rightarrow> statement list \<times> (error + result)" where
  "execute c log stmt = (log @ [stmt], c (length log) stmt)"


section \<open>OracleDocLoader\<close>

datatype OracleLoadFromType = FILE | DIR | TABLE

record loader =
  loadFrom :: string
  loadFromType :: OracleLoadFromType
  owner :: "string option"
  colname :: "string option"
  mdata_cols :: "string list option"

text \<open>
  Modelled from the spec: the class \<^verbatim>\<open>Document\<close> of \<^verbatim>\<open>@langchain/core\<close> is not among
  the sources; by section 3 of the spec a Document is a text together with a metadata map,
  and \<^verbatim>\<open>new Document(text, metadata)\<close> builds it from its two arguments. The map
  holds the own properties of the metadata object.
\<close>

record document =
  doc_text :: jsval
  doc_metadata :: jsobj

text \<open>\<^verbatim>\<open>isValidIdentifier\<close>: the pattern \<^verbatim>\<open>/^[A-Za-z_][A-Za-z0-9_]*$/\<close>, without the
  multiline flag, so it spans the whole string.\<close>

definition ident_start :: "char \<Rightarrow> bool" where
  "ident_start c =
     (let n = (of_char c :: nat)
      in (65 \<le> n \<and> n \<le> 90) \<or> (97 \<le> n \<and> n \<le> 122) \<or> n = 95)"

definition ident_char :: "char \<Rightarrow> bool" where
  "ident_char c =
     (let n = (of_char c :: nat)
      in (65 \<le> n \<and> n \<le> 90) \<or> (97 \<le> n \<and> n \<le> 122) \<or> (48 \<le> n \<and> n \<le> 57) \<or> n = 95)"

fun isValidIdentifier :: "string \<Rightarrow> bool" where
  "isValidIdentifier [] = False"
| "isValidIdentifier (c # cs) = (ident_start c \<and> list_all ident_char cs)"

text \<open>\<^verbatim>\<open>toUpperCase\<close>, on the ASCII letters (it is applied to validated identifiers).\<close>

definition upper_char :: "char \<Rightarrow> char" where
  "upper_char c =
     (let n = (of_char c :: nat) in if 97 \<le> n \<and> n \<le> 122 then char_of (n - 32) else c)"

definition toUpperCase :: "string \<Rightarrow> string" where
  "toUpperCase s = map upper_char s"

text \<open>
  The conversion of a value to a string in a template literal and as a property key.
  The numbers of the model print in plain decimal; a built-in function prints as its
  source text does in Node, the prototype object as \<^verbatim>\<open>[object Object]\<close>.
\<close>

function string_of_nat :: "nat \<Rightarrow> string" where
  "string_of_nat n =
     (if n < 10 then [char_of (48 + n)]
      else string_of_nat (n div 10) @ [char_of (48 + n mod 10)])"
  by pat_completeness auto
termination
  by (relation "measure id") auto

fun toString :: "jsval \<Rightarrow> string" where
  "toString Undefined = ''undefined''"
| "toString Null = ''null''"
| "toString (Str s) = s"
| "toString (Num n) =
     (if sint n < 0 then CHR ''-'' # string_of_nat (nat (- sint n))
      else string_of_nat (nat (sint n)))"
| "toString (Builtin k) =
     (if k = ''__proto__'' then ''[object Object]''
      else ''function '' @ (if k = ''constructor'' then ''Object'' else k)
           @ ''() { [native code] }'')"

text \<open>
  The surroundings of a \<^verbatim>\<open>load()\<close>: the tokenizer of \<^verbatim>\<open>htmlparser2\<close>, the hash
  function, the surroundings of the \<open>i\<close>-th call of \<^verbatim>\<open>generateObjectId\<close>, and the
  connection.
\<close>

record world =
  tokenize :: "string \<Rightarrow> event list"
  sha256 :: "string \<Rightarrow> byte list"
  id_envs :: "nat \<Rightarrow> id_env"
  db :: conn

text \<open>\<^verbatim>\<open>getUsername\<close>: \<^verbatim>\<open>result.rows?.[0]?.[0] || "unknown_user"\<close>.\<close>

definition first_cell :: "row list option \<Rightarrow> string \<Rightarrow> jsval" where
  "first_cell rs k =
     (case rs of None \<Rightarrow> Undefined | Some [] \<Rightarrow> Undefined | Some (r # rest) \<Rightarrow> getprop r k)"

definition getUsername :: "conn \<Rightarrow> statement list \<Rightarrow> statement list \<times> (error + jsval)" where
  "getUsername c log =
     (case execute c log UserSql of
        (log', Inl e) \<Rightarrow> (log', Inl e)
      | (log', Inr res) \<Rightarrow>
          (log', Inr (let u = first_cell (rows res) ''0''
                      in if truthy u then u else Str ''unknown_user'')))"

text \<open>The catalog lookup and the checks of the extra columns.\<close>

definition supported_types :: "string list" where
  "supported_types =
     [''NUMBER'', ''BINARY_DOUBLE'', ''BINARY_FLOAT'', ''LONG'', ''DATE'', ''TIMESTAMP'',
      ''VARCHAR2'']"

definition colTypes_of :: "row list \<Rightarrow> pobj" where
  "colTypes_of colRows =
     foldl (\<lambda>colTypes r.
              pset colTypes (toString (getprop r ''COLUMN_NAME'')) (getprop r ''DATA_TYPE''))
       new_object colRows"

definition check_col :: "string \<Rightarrow> pobj \<Rightarrow> string \<Rightarrow> error + unit" where
  "check_col tbl colTypes col =
     (if \<not> isValidIdentifier col then
        Inl (Error (''Invalid column name in mdata_cols: '' @ col))
      else
        let dataType = pget colTypes col
        in if \<not> truthy dataType then
             Inl (Error (''Column '' @ col @ '' not found in table '' @ tbl))
           else if dataType \<notin> set (map Str supported_types) then
             Inl (Error (''The datatype for the column '' @ col @ '' is not supported''))
           else Inr ())"

fun check_cols :: "string \<Rightarrow> pobj \<Rightarrow> string list \<Rightarrow> error + unit" where
  "check_cols tbl colTypes [] = Inr ()"
| "check_cols tbl colTypes (col # cols) =
     (case check_col tbl colTypes col of
        Inl e \<Rightarrow> Inl e
      | Inr u \<Rightarrow> check_cols tbl colTypes cols)"

text \<open>
  The part of \<^verbatim>\<open>loadFromTable\<close> under \<^verbatim>\<open>if (this.mdata_cols)\<close>; it yields
  \<^verbatim>\<open>mdataColsSql\<close>. An array, also an empty one, is truthy.
\<close>

definition catalog_phase :: "conn \<Rightarrow> string \<Rightarrow> string \<Rightarrow> string list option \<Rightarrow> statement list \<times> (error + string)" where
  "catalog_phase c own tbl mcols =
     (case mcols of
        None \<Rightarrow> ([], Inr '', t.ROWID AS ROWID'')
      | Some cols \<Rightarrow>
          if length cols > 3 then ([], Inl (Error ''Exceeds max columns for metadata''))
          else
            (case execute c [] (ColSql (toUpperCase own) (toUpperCase tbl)) of
               (log, Inl e) \<Rightarrow> (log, Inl e)
             | (log, Inr colResult) \<Rightarrow>
                 (case rows colResult of
                    None \<Rightarrow> (log, Inl (Error ''Failed to retrieve column information''))
                  | Some colRows \<Rightarrow>
                      (case check_cols tbl (colTypes_of colRows) cols of
                         Inl e \<Rightarrow> (log, Inl e)
                       | Inr u \<Rightarrow>
                           (log, Inr ('', t.ROWID AS ROWID''
                                      @ concat (map (\<lambda>col. '', t.'' @ col) cols)))))))"

text \<open>The text of the main query (runs of white space written as one blank) and the
  bind \<^verbatim>\<open>JSON.stringify({ plaintext: "false" })\<close>.\<close>

definition mainSql :: "string \<Rightarrow> string \<Rightarrow> string \<Rightarrow> string \<Rightarrow> string" where
  "mainSql col mdataColsSql own tbl =
     ''SELECT dbms_vector_chain.utl_to_text(t.'' @ col @ '', json(:params)) AS MDATA, ''
     @ ''dbms_vector_chain.utl_to_text(t.'' @ col @ '') AS TEXT '' @ mdataColsSql
     @ '' FROM '' @ own @ ''.'' @ tbl @ '' t''"

definition quote :: char where
  "quote = char_of (34 :: nat)"

definition m_params_json :: string where
  "m_params_json =
     ''{'' @ [quote] @ ''plaintext'' @ [quote] @ '':'' @ [quote] @ ''false'' @ [quote] @ ''}''"

text \<open>One row of the main query: the own properties of the metadata object parsed from
  \<^verbatim>\<open>row["MDATA"]\<close>, or of \<^verbatim>\<open>{}\<close>. A truthy value that is not a string has no
  \<^verbatim>\<open>startsWith\<close>.\<close>

definition row_metadata :: "(string \<Rightarrow> event list) \<Rightarrow> row \<Rightarrow> error + jsobj" where
  "row_metadata tok row =
     (let mdata = getprop row ''MDATA''
      in if truthy mdata then
           (case mdata of
              Str dat \<Rightarrow>
                if startsWith dat ''<!DOCTYPE html'' \<or> startsWith dat ''<HTML>'' then
                  Inr (map_option Str \<circ> metadata (parse tok dat new_parser))
                else Inr Map.empty
            | Undefined \<Rightarrow> Inl (TypeError ''data.startsWith is not a function'')
            | Null \<Rightarrow> Inl (TypeError ''data.startsWith is not a function'')
            | Num n \<Rightarrow> Inl (TypeError ''data.startsWith is not a function'')
            | Builtin k \<Rightarrow> Inl (TypeError ''data.startsWith is not a function''))
         else Inr Map.empty)"

definition oid_seed :: "jsval \<Rightarrow> string \<Rightarrow> string \<Rightarrow> string \<Rightarrow> jsval \<Rightarrow> string" where
  "oid_seed username own tbl col rowid =
     toString username @ ''$'' @ own @ ''$'' @ tbl @ ''$'' @ col @ ''$'' @ toString rowid"

definition copy_cols :: "string list option \<Rightarrow> row \<Rightarrow> pobj \<Rightarrow> pobj" where
  "copy_cols mcols row md =
     (case mcols of
        None \<Rightarrow> md
      | Some cols \<Rightarrow> foldl (\<lambda>m colName. pset m colName (getprop row colName)) md cols)"

definition row_document :: "world \<Rightarrow> id_env \<Rightarrow> jsval \<Rightarrow> string \<Rightarrow> string \<Rightarrow> string \<Rightarrow> string list option \<Rightarrow> row \<Rightarrow> error + document" where
  "row_document w env username own tbl col mcols row =
     (case row_metadata (tokenize w) row of
        Inl e \<Rightarrow> Inl e
      | Inr md \<Rightarrow>
          (case generateObjectId (sha256 w) env
                  (Some (oid_seed username own tbl col (getprop row ''ROWID''))) of
             Inl e \<Rightarrow> Inl e
           | Inr docId \<Rightarrow>
               let md1 = pset \<lparr> props = md, linked = True \<rparr> ''_oid'' (Str docId);
                   md2 = pset md1 ''_rowid'' (getprop row ''ROWID'');
                   md3 = copy_cols mcols row md2;
                   txt = getprop row ''TEXT''
               in if txt = Null \<or> txt = Undefined then
                    Inr \<lparr> doc_text = Str [], doc_metadata = props md3 \<rparr>
                  else Inr \<lparr> doc_text = txt, doc_metadata = props md3 \<rparr>))"

text \<open>The loop over the rows; \<open>i\<close> counts the calls of \<^verbatim>\<open>generateObjectId\<close> so far.\<close>

fun rows_documents :: "world \<Rightarrow> jsval \<Rightarrow> string \<Rightarrow> string \<Rightarrow> string \<Rightarrow> string list option \<Rightarrow> nat \<Rightarrow> row list \<Rightarrow> document list \<Rightarrow> error + document list" where
  "rows_documents w username own tbl col mcols i [] results = Inr results"
| "rows_documents w username own tbl col mcols i (row # rs) results =
     (case row_document w (id_envs w i) username own tbl col mcols row of
        Inl e \<Rightarrow> Inl e
      | Inr d \<Rightarrow> rows_documents w username own tbl col mcols (Suc i) rs (results @ [d]))"

text \<open>The main query, the session identity and the documents.\<close>

definition main_phase :: "world \<Rightarrow> string \<Rightarrow> string \<Rightarrow> string \<Rightarrow> string list option \<Rightarrow> string \<Rightarrow> statement list \<Rightarrow> statement list \<times> (error + document list)" where
  "main_phase w own tbl col mcols mdataColsSql log =
     (case execute (db w) log (MainSql (mainSql col mdataColsSql own tbl) m_params_json) of
        (log1, Inl e) \<Rightarrow> (log1, Inl e)
      | (log1, Inr res) \<Rightarrow>
          (case getUsername (db w) log1 of
             (log2, Inl e) \<Rightarrow> (log2, Inl e)
           | (log2, Inr username) \<Rightarrow>
               (case rows res of
                  None \<Rightarrow> (log2, Inr [])
                | Some rs \<Rightarrow> (log2, rows_documents w username own tbl col mcols 0 rs []))))"

text \<open>\<^verbatim>\<open>loadFromTable\<close>: the pair of the round trips made, in order, and the outcome.\<close>

definition missing_config :: error where
  "missing_config = Error ''Owner and column name must be specified for loading from a table''"

definition loadFromTable :: "world \<Rightarrow> loader \<Rightarrow> statement list \<times> (error + document list)" where
  "loadFromTable w l =
     (case owner l of
        None \<Rightarrow> ([], Inl missing_config)
      | Some own \<Rightarrow>
          (case colname l of
             None \<Rightarrow> ([], Inl missing_config)
           | Some col \<Rightarrow>
               if own = [] \<or> col = [] then ([], Inl missing_config)
               else if \<not> isValidIdentifier own then ([], Inl (Error ''Invalid owner name''))
               else if \<not> isValidIdentifier (loadFrom l) then
                 ([], Inl (Error ''Invalid table name''))
               else if \<not> isValidIdentifier col then ([], Inl (Error ''Invalid column name''))
               else
                 (case catalog_phase (db w) own (loadFrom l) (mdata_cols l) of
                    (log, Inl e) \<Rightarrow> (log, Inl e)
                  | (log, Inr mdataColsSql) \<Rightarrow>
                      main_phase w own (loadFrom l) col (mdata_cols l) mdataColsSql log)))"

definition load :: "world \<Rightarrow> loader \<Rightarrow> statement list \<times> (error + document list)" where
  "load w l =
     (case loadFromType l of
        FILE \<Rightarrow> ([], Inr [])
      | DIR \<Rightarrow> ([], Inr [])
      | TABLE \<Rightarrow> loadFromTable w l)"


section \<open>OracleDocReader.readFile\<close>

text \<open>
  \<^verbatim>\<open>readClob\<close> resolves with the text of the large object or rejects; an absent one
  reads as the empty string (\<^verbatim>\<open>lob ? await readClob(lob) : ""\<close>).
\<close>

fun readClob :: "lob \<Rightarrow> error + string" where
  "readClob (Lob r) = r"

definition read_opt_lob :: "lob option \<Rightarrow> error + string" where
  "read_opt_lob l = (case l of None \<Rightarrow> Inr [] | Some lb \<Rightarrow> readClob lb)"

text \<open>
  The file system's \<^verbatim>\<open>fs.readFile\<close> (an error, or the data, which the code tests with
  \<^verbatim>\<open>!data\<close>), and the call \<^verbatim>\<open>Document(text, metadata)\<close> that the last statements of
  \<^verbatim>\<open>readFile\<close> make without \<^verbatim>\<open>new\<close>: what that call does is fixed by the declaration
  of \<^verbatim>\<open>Document\<close>, which lies outside these sources, so it is a parameter.
\<close>

record file_env =
  fs_readFile :: "string \<Rightarrow> error + byte list option"
  call_Document :: "string \<Rightarrow> jsobj \<Rightarrow> error + document option"

text \<open>\<^verbatim>\<open>`${ex}`\<close> in the two lines written to \<^verbatim>\<open>console.error\<close>.\<close>

fun describe :: "error \<Rightarrow> string" where
  "describe (Error m) = (if m = [] then ''Error'' else ''Error: '' @ m)"
| "describe (TypeError m) = (if m = [] then ''TypeError'' else ''TypeError: '' @ m)"
| "describe (RangeError m) = (if m = [] then ''RangeError'' else ''RangeError: '' @ m)"
| "describe (Thrown m) = m"

text \<open>
  The body of the \<^verbatim>\<open>try\<close> block. \<open>pref\<close> is \<^verbatim>\<open>JSON.stringify(params)\<close>. The outcome
  is the log of round trips and either the exception that left the block or the value
  returned.
\<close>

definition readFile_try :: "world \<Rightarrow> file_env \<Rightarrow> string \<Rightarrow> string \<Rightarrow> statement list \<times> (error + document option)" where
  "readFile_try w fe filePath pref =
     (case fs_readFile fe filePath of
        Inl e \<Rightarrow> ([], Inl e)
      | Inr None \<Rightarrow> ([], Inr (Some \<lparr> doc_text = Str [], doc_metadata = Map.empty \<rparr>))
      | Inr (Some dat) \<Rightarrow>
          (case execute (db w) [] (ExtractSql dat pref) of
             (log, Inl e) \<Rightarrow> (log, Inl e)
           | (log, Inr res) \<Rightarrow>
               (case outBinds res of
                  None \<Rightarrow> (log, Inl (TypeError ''Cannot read properties of undefined''))
                | Some ob \<Rightarrow>
                    (case read_opt_lob (ob_mdata ob) of
                       Inl e \<Rightarrow> (log, Inl e)
                     | Inr docData \<Rightarrow>
                         (case read_opt_lob (ob_text ob) of
                            Inl e \<Rightarrow> (log, Inl e)
                          | Inr textData \<Rightarrow>
                              let md = (if startsWith docData ''<!DOCTYPE html''
                                           \<or> startsWith docData ''<HTML>''
                                        then metadata (parse (tokenize w) docData new_parser)
                                        else Map.empty)
                              in (case execute (db w) log UserSql of
                                    (log2, Inl e) \<Rightarrow> (log2, Inl e)
                                  | (log2, Inr userResult) \<Rightarrow>
                                      let username = first_cell (rows userResult) ''USERNAME''
                                      in (case generateObjectId (sha256 w) (id_envs w 0)
                                                 (Some (toString username @ ''$'' @ filePath)) of
                                            Inl e \<Rightarrow> (log2, Inl e)
                                          | Inr docId \<Rightarrow>
                                              let md1 = md(''_oid'' \<mapsto> docId);
                                                  md2 = md1(''_file'' \<mapsto> filePath)
                                              in if textData = [] then
                                                   (log2, call_Document fe [] (map_option Str \<circ> md2))
                                                 else
                                                   (log2, call_Document fe textData
                                                            (map_option Str \<circ> md2)))))))))"

text \<open>\<^verbatim>\<open>readFile\<close>: the round trips, the lines logged, and the value returned
  (\<open>None\<close> is \<^verbatim>\<open>null\<close>).\<close>

definition readFile :: "world \<Rightarrow> file_env \<Rightarrow> string \<Rightarrow> string \<Rightarrow> statement list \<times> string list \<times> document option" where
  "readFile w fe filePath pref =
     (case readFile_try w fe filePath pref of
        (log, Inl ex) \<Rightarrow>
          (log, [''An exception occurred: '' @ describe ex, ''Skip processing '' @ filePath], None)
      | (log, Inr d) \<Rightarrow> (log, [], d))"


section \<open>Auxiliary notions for the statements\<close>

text \<open>The number a sequence of bytes denotes, most significant byte first.\<close>

definition be_value :: "byte list \<Rightarrow> int" where
  "be_value bs = foldl (\<lambda>acc b. acc * 256 + uint b) 0 bs"

text \<open>
  Sample surroundings for concrete runs: a clock at 1700000000123 ms, fixed random draws,
  and a stand-in for the hash function that returns the same ten bytes for every input.
\<close>

definition example_env :: id_env where
  "example_env = \<lparr> now_ms = 1700000000123, seed_draw = (\<lambda>k. k), counter_draw = 16909060 \<rparr>"

definition example_hash :: "string \<Rightarrow> byte list" where
  "example_hash s = [171, 205, 239, 1, 35, 69, 103, 137, 9, 9]"

text \<open>The kind of a statement, to speak about the sequence of round trips.\<close>

datatype kind = Catalog | Main | User | Extract

fun kind_of :: "statement \<Rightarrow> kind" where
  "kind_of (ColSql own tbl) = Catalog"
| "kind_of (MainSql sql params) = Main"
| "kind_of UserSql = User"
| "kind_of (ExtractSql blob pref) = Extract"

text \<open>
  A sample database in the manner of the repository's tests: the catalog lists the
  columns \<^verbatim>\<open>ID\<close>, \<^verbatim>\<open>_oid\<close>, \<^verbatim>\<open>title\<close> and \<^verbatim>\<open>CONTENT_COLUMN\<close>; the main query
  returns one row
  without an HTML-flavoured extraction and one with it; the session user is
  \<^verbatim>\<open>TEST_USER\<close>; the PL/SQL block of the file path is rejected. The sample tokenizer
  raises the events of a document with the title \<^verbatim>\<open>Document 1\<close> and a \<^verbatim>\<open>meta\<close> tag
  named \<^verbatim>\<open>_oid\<close>, whatever it is given.
\<close>

definition example_catalog :: "row list" where
  "example_catalog =
     [[''COLUMN_NAME'' \<mapsto> DbStr ''ID'', ''DATA_TYPE'' \<mapsto> DbStr ''NUMBER''],
      [''COLUMN_NAME'' \<mapsto> DbStr ''_oid'', ''DATA_TYPE'' \<mapsto> DbStr ''NUMBER''],
      [''COLUMN_NAME'' \<mapsto> DbStr ''title'', ''DATA_TYPE'' \<mapsto> DbStr ''VARCHAR2''],
      [''COLUMN_NAME'' \<mapsto> DbStr ''CONTENT_COLUMN'', ''DATA_TYPE'' \<mapsto> DbStr ''CLOB'']]"

definition example_row_plain :: row where
  "example_row_plain =
     [''MDATA'' \<mapsto> DbNull, ''TEXT'' \<mapsto> DbStr ''Document content without metadata'',
      ''ROWID'' \<mapsto> DbStr ''ROWID3'', ''ID'' \<mapsto> DbNum 3, ''_oid'' \<mapsto> DbNum 7,
      ''title'' \<mapsto> DbStr ''From the column'']"

definition example_row_html :: row where
  "example_row_html =
     [''MDATA'' \<mapsto> DbStr ''<HTML><title>Document 1</title></HTML>'',
      ''TEXT'' \<mapsto> DbStr ''This is the content of document 1'',
      ''ROWID'' \<mapsto> DbStr ''ROWID1'', ''ID'' \<mapsto> DbNum 1, ''_oid'' \<mapsto> DbNum 8,
      ''title'' \<mapsto> DbStr ''Another title'']"

fun example_db :: conn where
  "example_db n (ColSql own tbl) = Inr \<lparr> rows = Some example_catalog, outBinds = None \<rparr>"
| "example_db n (MainSql sql params) =
     Inr \<lparr> rows = Some [example_row_plain, example_row_html], outBinds = None \<rparr>"
| "example_db n UserSql = Inr \<lparr> rows = Some [[''0'' \<mapsto> DbStr ''TEST_USER'']], outBinds = None \<rparr>"
| "example_db n (ExtractSql blob pref) = Inl (Thrown ''ORA-29400'')"

definition example_tokenize :: "string \<Rightarrow> event list" where
  "example_tokenize s =
     [OpenTag ''html'' [], OpenTag ''title'' [], Text ''Document 1'',
      OpenTag ''meta'' [(''name'', Some ''_oid''), (''content'', Some ''spoofed'')]]"

definition example_world :: world where
  "example_world =
     \<lparr> tokenize = example_tokenize, sha256 = example_hash, id_envs = (\<lambda>i. example_env),
       db = example_db \<rparr>"

definition example_loader :: loader where
  "example_loader =
     \<lparr> loadFrom = ''test_table'', loadFromType = TABLE, owner = Some ''TEST_USER'',
       colname = Some ''CONTENT_COLUMN'', mdata_cols = Some [''ID''] \<rparr>"

text \<open>
  Notions for the statements about the rows of the table path: an HTML-flavoured
  extraction that is present and carries one of the two signatures; the metadata the
  parser makes of it; an extraction that is a string or absent, as the text-extraction
  function of the database yields it; the extra columns requested; a session-identity
  result without a usable value (no rows, or a null or undefined first cell); the documents
  of an outcome.
\<close>

definition html_signature :: "jsval \<Rightarrow> bool" where
  "html_signature v =
     (case v of
        Str s \<Rightarrow> startsWith s ''<!DOCTYPE html'' \<or> startsWith s ''<HTML>''
      | Undefined \<Rightarrow> False | Null \<Rightarrow> False | Num n \<Rightarrow> False | Builtin k \<Rightarrow> False)"

definition parsed_metadata :: "(string \<Rightarrow> event list) \<Rightarrow> jsval \<Rightarrow> jsobj" where
  "parsed_metadata tok v =
     (case v of
        Str s \<Rightarrow> map_option Str \<circ> metadata (parse tok s new_parser)
      | Undefined \<Rightarrow> Map.empty | Null \<Rightarrow> Map.empty | Num n \<Rightarrow> Map.empty
      | Builtin k \<Rightarrow> Map.empty)"

definition textual :: "jsval \<Rightarrow> bool" where
  "textual v =
     (case v of
        Num n \<Rightarrow> n = 0 | Undefined \<Rightarrow> True | Null \<Rightarrow> True | Str s \<Rightarrow> True
      | Builtin k \<Rightarrow> False)"

definition cols_of :: "string list option \<Rightarrow> string list" where
  "cols_of mcols = (case mcols of None \<Rightarrow> [] | Some cols \<Rightarrow> cols)"

text \<open>The own properties of a fresh object with own properties \<open>m\<close> after the extra
  columns of a row have been copied onto it.\<close>

definition with_cols :: "string list option \<Rightarrow> row \<Rightarrow> jsobj \<Rightarrow> jsobj" where
  "with_cols mcols r m = props (copy_cols mcols r \<lparr> props = m, linked = True \<rparr>)"

definition no_user :: "result \<Rightarrow> bool" where
  "no_user res =
     (case rows res of
        None \<Rightarrow> True
      | Some [] \<Rightarrow> True
      | Some (r # rest) \<Rightarrow> getprop r ''0'' = Null \<or> getprop r ''0'' = Undefined)"

definition rows_of :: "result \<Rightarrow> row list" where
  "rows_of res = (case rows res of None \<Rightarrow> [] | Some rs \<Rightarrow> rs)"

definition docs_of :: "error + document list \<Rightarrow> document list" where
  "docs_of r = (case r of Inl e \<Rightarrow> [] | Inr ds \<Rightarrow> ds)"

definition clock_ok :: "id_env \<Rightarrow> bool" where
  "clock_ok env = (0 \<le> now_ms env \<and> now_ms env div 1000 < 4294967296)"

text \<open>The sample database with a session-identity query that returns no rows, and the
  documents of the sample loads.\<close>

fun example_db_nouser :: conn where
  "example_db_nouser n UserSql = Inr \<lparr> rows = Some [], outBinds = None \<rparr>"
| "example_db_nouser n (ColSql own tbl) = example_db n (ColSql own tbl)"
| "example_db_nouser n (MainSql sql params) = example_db n (MainSql sql params)"
| "example_db_nouser n (ExtractSql blob pref) = example_db n (ExtractSql blob pref)"

definition example_docs :: "document list" where
  "example_docs = docs_of (snd (load example_world example_loader))"

definition example_docs_nouser :: "document list" where
  "example_docs_nouser =
     docs_of (snd (load (example_world\<lparr>db := example_db_nouser\<rparr>) example_loader))"

definition example_docs_oid_col :: "document list" where
  "example_docs_oid_col =
     docs_of (snd (load example_world (example_loader\<lparr>mdata_cols := Some [''_oid'']\<rparr>)))"

definition example_docs_title_col :: "document list" where
  "example_docs_title_col =
     docs_of (snd (load example_world (example_loader\<lparr>mdata_cols := Some [''title'']\<rparr>)))"

text \<open>A sample file system: one path does not exist, every other file holds four bytes;
  the call of \<^verbatim>\<open>Document\<close> is taken to build the document.\<close>

definition example_file_env :: file_env where
  "example_file_env =
     \<lparr> fs_readFile = (\<lambda>path. if path = ''missing.pdf'' then Inl (Thrown ''ENOENT'')
                              else Inr (Some [37, 80, 68, 70])),
       call_Document = (\<lambda>t m. Inr (Some \<lparr> doc_text = Str t, doc_metadata = m \<rparr>)) \<rparr>"

section \<open>Properties of the metadata parser\<close>

subsection \<open>Meta tags\<close>

lemma scan_attrs_snoc:
  "scan_attrs (attrs @ [a]) = scan_attr (scan_attrs attrs) a"
  by (simp add: scan_attrs_def)

lemma scan_attrs_last:
  "scan_attrs attrs =
     (case last_attr ''name'' attrs of
        None \<Rightarrow> None
      | Some v \<Rightarrow> Some (case v of None \<Rightarrow> [] | Some s \<Rightarrow> s),
      case last_attr ''content'' attrs of None \<Rightarrow> None | Some v \<Rightarrow> v)"
proof (induction attrs rule: rev_induct)
  case Nil
  show ?case by (simp add: scan_attrs_def last_attr_def)
next
  case (snoc a attrs)
  obtain k v where a: "a = (k, v)" by (cases a)
  show ?case
    unfolding scan_attrs_snoc snoc.IH a
    by (simp add: last_attr_def)
qed

text \<open>
  Claim C3, as the code has it. For an open tag named \<^verbatim>\<open>meta\<close>: when the (last)
  attribute named \<^verbatim>\<open>name\<close> has a value \<open>n\<close> that is neither empty nor
  \<^verbatim>\<open>__proto__\<close>, the parser records \<open>metadata[n] = c\<close> if the \<^verbatim>\<open>content\<close>
  attribute is present with value \<open>c\<close>, and \<open>metadata[n] = "N/A"\<close> if no
  \<^verbatim>\<open>content\<close> attribute is present (or its value is \<^verbatim>\<open>null\<close>). When no attribute is
  named \<^verbatim>\<open>name\<close>, or its value is empty (or \<^verbatim>\<open>null\<close>) or is \<^verbatim>\<open>__proto__\<close>, the
  parser is left as it was, so no key is added.
\<close>

theorem meta_tag_records:
  "(last_attr ''name'' attrs = Some (Some n) \<and> n \<noteq> [] \<and> n \<noteq> ''__proto__''
      \<and> last_attr ''content'' attrs = Some (Some c)
      \<longrightarrow> handleStartTag ''meta'' attrs p = p\<lparr>metadata := (metadata p)(n \<mapsto> c)\<rparr>)
   \<and> (last_attr ''name'' attrs = Some (Some n) \<and> n \<noteq> [] \<and> n \<noteq> ''__proto__''
      \<and> (last_attr ''content'' attrs = None \<or> last_attr ''content'' attrs = Some None)
      \<longrightarrow> handleStartTag ''meta'' attrs p = p\<lparr>metadata := (metadata p)(n \<mapsto> ''N/A'')\<rparr>)
   \<and> (last_attr ''name'' attrs = None \<longrightarrow> handleStartTag ''meta'' attrs p = p)
   \<and> (last_attr ''name'' attrs = Some (Some []) \<or> last_attr ''name'' attrs = Some None
      \<longrightarrow> handleStartTag ''meta'' attrs p = p)
   \<and> (last_attr ''name'' attrs = Some (Some ''__proto__'')
      \<longrightarrow> handleStartTag ''meta'' attrs p = p)"
  by (auto simp add: handleStartTag_def scan_attrs_last set_string_def)

text \<open>The cases on the tags of the repository's tests, and on a tag with an empty name
  and one named \<^verbatim>\<open>__proto__\<close>.\<close>

theorem meta_tag_records_witness:
  "handleStartTag ''meta'' [(''name'', Some ''description''), (''content'', Some ''Sample Content'')] new_parser
     = new_parser\<lparr>metadata := (metadata new_parser)(''description'' \<mapsto> ''Sample Content'')\<rparr>
   \<and> handleStartTag ''meta'' [(''name'', Some ''description'')] new_parser
     = new_parser\<lparr>metadata := (metadata new_parser)(''description'' \<mapsto> ''N/A'')\<rparr>
   \<and> handleStartTag ''meta'' [(''content'', Some ''Sample Content'')] new_parser = new_parser
   \<and> handleStartTag ''meta'' [(''name'', Some []), (''content'', Some ''Sample Content'')] new_parser
     = new_parser
   \<and> handleStartTag ''meta'' [(''name'', Some ''__proto__''), (''content'', Some ''Sample Content'')]
       new_parser = new_parser"
  using meta_tag_records [of "[(''name'', Some ''description''), (''content'', Some ''Sample Content'')]"
          "''description''" "''Sample Content''" new_parser]
        meta_tag_records [of "[(''name'', Some ''description'')]" "''description''" "''Sample Content''" new_parser]
        meta_tag_records [of "[(''content'', Some ''Sample Content'')]" "''description''" "''Sample Content''" new_parser]
        meta_tag_records [of "[(''name'', Some []), (''content'', Some ''Sample Content'')]"
          "''description''" "''Sample Content''" new_parser]
        meta_tag_records [of "[(''name'', Some ''__proto__''), (''content'', Some ''Sample Content'')]"
          "''description''" "''Sample Content''" new_parser]
  by (simp add: last_attr_def)

text \<open>
  Claim C3 as the spec words it asks for \<open>metadata[name] = content\<close> whenever a
  \<^verbatim>\<open>name\<close> attribute is present. A \<^verbatim>\<open>name\<close> attribute that is present with the
  empty value (\<^verbatim>\<open><meta name="" content="x">\<close>) does not pass the guard
  \<^verbatim>\<open>if (entry)\<close>: nothing is recorded under the key \<^verbatim>\<open>""\<close>. Nor is anything
  recorded for the name \<^verbatim>\<open>__proto__\<close>, where the assignment runs the setter inherited
  from \<^verbatim>\<open>Object.prototype\<close>.
\<close>

theorem meta_empty_name_counterexample:
  "last_attr ''name'' [(''name'', Some []), (''content'', Some ''x'')] = Some (Some [])
   \<and> last_attr ''content'' [(''name'', Some []), (''content'', Some ''x'')] = Some (Some ''x'')
   \<and> metadata (handleStartTag ''meta'' [(''name'', Some []), (''content'', Some ''x'')] new_parser) [] = None
   \<and> last_attr ''name'' [(''name'', Some ''__proto__''), (''content'', Some ''x'')]
       = Some (Some ''__proto__'')
   \<and> metadata (handleStartTag ''meta'' [(''name'', Some ''__proto__''), (''content'', Some ''x'')]
                 new_parser) ''__proto__'' = None"
  by (simp add: last_attr_def handleStartTag_def scan_attrs_def new_parser_def set_string_def)

subsection \<open>The title capture\<close>

lemma feed_Nil: "feed [] p = p" by (simp add: feed_def)
lemma feed_Cons: "feed (e # es) p = feed es (handle_event p e)" by (simp add: feed_def)
lemma feed_append: "feed (es @ fs) p = feed fs (feed es p)" by (simp add: feed_def)

lemma match_handleStartTag: "match p \<Longrightarrow> match (handleStartTag tag attrs p)"
  by (simp add: handleStartTag_def split: prod.splits option.splits)

lemma match_handleStartTag_iff:
  "match (handleStartTag tag attrs p) = (tag = ''title'' \<or> match p)"
  by (auto simp add: handleStartTag_def split: prod.splits option.splits)

lemma open_tags_keep_armed:
  "list_all is_open tags \<Longrightarrow> match p \<Longrightarrow> match (feed tags p)"
proof (induction tags arbitrary: p)
  case Nil
  then show ?case by (simp add: feed_Nil)
next
  case (Cons e tags)
  then show ?case by (cases e) (simp_all add: feed_Cons match_handleStartTag)
qed

lemma disarmed_stays:
  "list_all (\<lambda>e. \<not> opens_title e) es \<Longrightarrow> \<not> match p \<Longrightarrow> \<not> match (feed es p)"
proof (induction es arbitrary: p)
  case Nil
  then show ?case by (simp add: feed_Nil)
next
  case (Cons e es)
  then show ?case
    by (cases e) (simp_all add: feed_Cons handleData_def match_handleStartTag_iff)
qed

lemma disarmed_ignores_text:
  "list_all (\<lambda>e. \<not> opens_title e) es \<Longrightarrow> \<not> match p \<Longrightarrow>
     feed es p = feed (filter is_open es) p"
proof (induction es arbitrary: p)
  case Nil
  then show ?case by (simp add: feed_Nil)
next
  case (Cons e es)
  then show ?case
    by (cases e) (simp_all add: feed_Cons handleData_def match_handleStartTag_iff)
qed

text \<open>
  Claim C4. After an open tag named \<^verbatim>\<open>title\<close> and any open tags \<open>tags\<close> (of any
  name) the flag is armed; the first text event \<open>d\<close> after them is recorded as
  \<open>metadata["title"]\<close> and disarms the flag in the same step; in what follows, as long
  as no \<^verbatim>\<open>title\<close> tag is opened again, the text events change nothing (the parser ends
  where it would have ended without them) and the flag stays disarmed.
\<close>

theorem title_capture:
  assumes "list_all is_open tags" and "list_all (\<lambda>e. \<not> opens_title e) rest"
  shows "match (feed (OpenTag ''title'' attrs # tags) p)
    \<and> feed (OpenTag ''title'' attrs # tags @ [Text d]) p
        = (feed (OpenTag ''title'' attrs # tags) p)
            \<lparr>metadata := (metadata (feed (OpenTag ''title'' attrs # tags) p))(''title'' \<mapsto> d),
             match := False\<rparr>
    \<and> feed (OpenTag ''title'' attrs # tags @ Text d # rest) p
        = feed (filter is_open rest) (feed (OpenTag ''title'' attrs # tags @ [Text d]) p)
    \<and> \<not> match (feed (OpenTag ''title'' attrs # tags @ Text d # rest) p)"
proof -
  let ?q = "feed (OpenTag ''title'' attrs # tags) p"
  let ?r = "feed (OpenTag ''title'' attrs # tags @ [Text d]) p"
  have armed: "match ?q"
    using assms(1) by (simp add: feed_Cons open_tags_keep_armed match_handleStartTag_iff)
  have r: "?r = handleData d ?q"
    using feed_append [of "OpenTag ''title'' attrs # tags" "[Text d]" p]
    by (simp add: feed_Cons feed_Nil)
  have r': "?r = ?q\<lparr>metadata := (metadata ?q)(''title'' \<mapsto> d), match := False\<rparr>"
    unfolding r using armed by (simp add: handleData_def)
  have off: "\<not> match ?r" by (subst r') simp
  have split: "feed (OpenTag ''title'' attrs # tags @ Text d # rest) p = feed rest ?r"
    using feed_append [of "OpenTag ''title'' attrs # tags @ [Text d]" rest p] by simp
  have ignored: "feed rest ?r = feed (filter is_open rest) ?r"
    by (rule disarmed_ignores_text [OF assms(2) off])
  have still_off: "\<not> match (feed rest ?r)"
    by (rule disarmed_stays [OF assms(2) off])
  show ?thesis
  proof (intro conjI)
    show "match ?q" by (rule armed)
    show "?r = ?q\<lparr>metadata := (metadata ?q)(''title'' \<mapsto> d), match := False\<rparr>" by (rule r')
    show "feed (OpenTag ''title'' attrs # tags @ Text d # rest) p = feed (filter is_open rest) ?r"
      unfolding split by (rule ignored)
    show "\<not> match (feed (OpenTag ''title'' attrs # tags @ Text d # rest) p)"
      unfolding split by (rule still_off)
  qed
qed

text \<open>A title followed by two other open tags, its text, and more text.\<close>

theorem title_capture_witness:
  "list_all is_open [OpenTag ''b'' [], OpenTag ''meta'' [(''name'', Some ''author'')]]
   \<and> list_all (\<lambda>e. \<not> opens_title e) [Text ''more'', OpenTag ''p'' [], Text ''text'']
   \<and> metadata (feed (OpenTag ''title'' [] # [OpenTag ''b'' [], OpenTag ''meta'' [(''name'', Some ''author'')]]
                 @ Text ''Sample Title'' # [Text ''more'', OpenTag ''p'' [], Text ''text'']) new_parser) ''title''
       = Some ''Sample Title''
   \<and> \<not> match (feed (OpenTag ''title'' [] # [OpenTag ''b'' [], OpenTag ''meta'' [(''name'', Some ''author'')]]
                 @ Text ''Sample Title'' # [Text ''more'', OpenTag ''p'' [], Text ''text'']) new_parser)"
proof -
  have a: "list_all is_open [OpenTag ''b'' [], OpenTag ''meta'' [(''name'', Some ''author'')]]" by simp
  have b: "list_all (\<lambda>e. \<not> opens_title e) [Text ''more'', OpenTag ''p'' [], Text ''text'']" by simp
  from title_capture [OF a b, of "[]" new_parser "''Sample Title''"] a b
  show ?thesis
    by (simp add: feed_def handleStartTag_def handleData_def scan_attrs_def new_parser_def)
qed

section \<open>Properties of the object id\<close>

lemma uint_byte_of_int: "uint (word_of_int x :: byte) = x mod 256"
  by (simp add: uint_word_of_int)

lemma be_split:
  assumes "0 \<le> v" and "v < 4294967296"
  shows "((v div 16777216 mod 256 * 256 + v div 65536 mod 256) * 256 + v div 256 mod 256) * 256
           + v mod 256 = (v :: int)"
proof -
  define q1 where "q1 = v div 256"
  define q2 where "q2 = q1 div 256"
  define q3 where "q3 = q2 div 256"
  have e1: "v div 65536 = q2"
    unfolding q2_def q1_def using zdiv_zmult2_eq [of 256 v 256] by simp
  have e2: "v div 16777216 = q3"
    unfolding q3_def e1 [symmetric] using zdiv_zmult2_eq [of 256 v 65536] by simp
  have lo: "0 \<le> v div 16777216"
    using assms(1) by (rule pos_imp_zdiv_nonneg_iff [THEN iffD2, rotated]) simp
  have "v div 16777216 \<le> 4294967295 div 16777216"
    by (rule zdiv_mono1) (use assms(2) in simp_all)
  then have hi: "v div 16777216 < 256" by simp
  have top: "q3 mod 256 = q3"
    using lo hi unfolding e2 by (rule mod_pos_pos_trivial)
  have s0: "q1 * 256 + v mod 256 = v"
    unfolding q1_def by (rule div_mult_mod_eq)
  have s1: "q2 * 256 + q1 mod 256 = q1"
    unfolding q2_def by (rule div_mult_mod_eq)
  have s2: "q3 * 256 + q2 mod 256 = q2"
    unfolding q3_def by (rule div_mult_mod_eq)
  have "((q3 mod 256 * 256 + q2 mod 256) * 256 + q1 mod 256) * 256 + v mod 256 = v"
    unfolding top s2 s1 s0 ..
  then show ?thesis
    unfolding e1 e2 q1_def .
qed
lemma be_value4:
  "be_value [a, b, c, d] = ((uint a * 256 + uint b) * 256 + uint c) * 256 + uint d"
  by (simp add: be_value_def)

lemma writeUInt32BE_ok:
  assumes "0 \<le> v" and "v < 4294967296"
  shows "\<exists>bs. writeUInt32BE v = Inr bs \<and> length bs = 4 \<and> be_value bs = v"
proof -
  let ?bs = "[word_of_int (v div 16777216), word_of_int (v div 65536),
              word_of_int (v div 256), word_of_int v] :: byte list"
  have w: "writeUInt32BE v = Inr ?bs"
    unfolding writeUInt32BE_def using assms by simp
  have l: "length ?bs = 4" by simp
  have b: "be_value ?bs = v"
    unfolding be_value4 uint_byte_of_int by (rule be_split [OF assms])
  from w l b show ?thesis by (intro exI [of _ ?bs] conjI)
qed

lemma hex_digit_lower: "n < 16 \<Longrightarrow> is_lower_hex (hex_digit n)"
  unfolding is_lower_hex_def hex_digit_def
  by (rule nth_mem) simp

lemma hex_byte_lower: "list_all is_lower_hex (hex_byte b)"
proof -
  have "unat b < 256" using unsigned_less [of b] by simp
  then have "unat b div 16 < 16" by simp
  then show ?thesis by (simp add: hex_byte_def hex_digit_lower)
qed

lemma length_toHex: "length (toHex bs) = 2 * length bs"
  by (induction bs) (simp_all add: toHex_def hex_byte_def)

lemma toHex_lower: "list_all is_lower_hex (toHex bs)"
  by (induction bs) (simp_all add: toHex_def hex_byte_lower)

lemma length_padStart: "length (padStart n c s) = max n (length s)"
  by (simp add: padStart_def)

lemma padStart_all: "P c \<Longrightarrow> list_all P s \<Longrightarrow> list_all P (padStart n c s)"
  by (auto simp add: padStart_def list_all_iff)

lemma length_alphabet: "length alphabet = 62"
  by (simp add: alphabet_def)

lemma charAt_alphabet: "i < 62 \<Longrightarrow> \<exists>c. charAt alphabet i = [c] \<and> is_alnum c"
  by (simp add: charAt_def is_alnum_def length_alphabet)

lemma random_seed_aux:
  "list_all (\<lambda>k. draw k < 62) ks \<Longrightarrow>
     length (concat (map (\<lambda>k. charAt alphabet (draw k)) ks)) = length ks
     \<and> list_all is_alnum (concat (map (\<lambda>k. charAt alphabet (draw k)) ks))"
proof (induction ks)
  case Nil
  then show ?case by simp
next
  case (Cons k ks)
  then obtain c where "charAt alphabet (draw k) = [c]" "is_alnum c"
    using charAt_alphabet [of "draw k"] by auto
  with Cons show ?case by simp
qed

lemma random_seed_ok:
  "list_all (\<lambda>k. draw k < 62) [0..<16] \<Longrightarrow>
     length (random_seed draw) = 16 \<and> list_all is_alnum (random_seed draw)"
  unfolding random_seed_def using random_seed_aux [of draw "[0..<16]"] by simp

text \<open>
  Claim C2, as the code has it. Whenever the current Unix time in seconds lies in
  \<open>0 .. 2^32 - 1\<close>, \<^verbatim>\<open>generateObjectId\<close> returns, for every seed argument, a string
  of exactly 32 lower-case hexadecimal characters: the hex encoding, left-padded with
  \<^verbatim>\<open>0\<close> to 32 characters, of the concatenation of the 4-byte big-endian time in
  seconds, the first 8 bytes of the hash of the seed, and the 4 bytes of the random
  counter. The seed hashed is the argument, or, when that is \<^verbatim>\<open>null\<close> or empty, the
  synthesized one, which has 16 alphanumeric characters when every draw is below 62.
\<close>

theorem generateObjectId_ok:
  assumes "0 \<le> now_ms env" and "now_ms env div 1000 < 4294967296"
  shows "\<exists>oid ts ctr.
           generateObjectId sha env inputString = Inr oid
         \<and> length oid = 32 \<and> list_all is_lower_hex oid
         \<and> oid = padStart 32 (CHR ''0'')
                   (toHex (ts @ take 8 (sha (effective_seed env inputString)) @ ctr))
         \<and> length ts = 4 \<and> be_value ts = now_ms env div 1000
         \<and> length ctr = 4 \<and> be_value ctr = uint (counter_draw env)
         \<and> effective_seed env inputString
             = (if inputString = None \<or> inputString = Some []
                then random_seed (seed_draw env) else the inputString)
         \<and> (if list_all (\<lambda>k. seed_draw env k < 62) [0..<16]
            then length (random_seed (seed_draw env)) = 16
               \<and> list_all is_alnum (random_seed (seed_draw env))
            else True)"
proof -
  have t0: "0 \<le> now_ms env div 1000" using assms(1) by simp
  obtain ts where ts: "writeUInt32BE (now_ms env div 1000) = Inr ts" "length ts = 4"
      "be_value ts = now_ms env div 1000"
    using writeUInt32BE_ok [OF t0 assms(2)] by blast
  have c0: "0 \<le> uint (counter_draw env)" by simp
  have c1: "uint (counter_draw env) < 4294967296"
    using uint_lt2p [of "counter_draw env"] by simp
  obtain ctr where ctr: "writeUInt32BE (uint (counter_draw env)) = Inr ctr" "length ctr = 4"
      "be_value ctr = uint (counter_draw env)"
    using writeUInt32BE_ok [OF c0 c1] by blast
  let ?h = "take 8 (sha (effective_seed env inputString))"
  let ?hex = "toHex (ts @ ?h @ ctr)"
  let ?oid = "padStart 32 (CHR ''0'') ?hex"
  have len_hex: "length ?hex \<le> 32"
    using ts(2) ctr(2) by (simp add: length_toHex)
  have len: "length ?oid = 32"
    using len_hex by (simp add: length_padStart)
  have run: "generateObjectId sha env inputString = Inr ?oid"
    using ts(1) ctr(1) len by (simp add: generateObjectId_def Let_def)
  have hexs: "list_all is_lower_hex ?oid"
    by (rule padStart_all) (simp_all add: toHex_lower is_lower_hex_def)
  have seed: "effective_seed env inputString
             = (if inputString = None \<or> inputString = Some []
                then random_seed (seed_draw env) else the inputString)"
    by (cases inputString) (simp_all add: effective_seed_def)
  have rnd: "(if list_all (\<lambda>k. seed_draw env k < 62) [0..<16]
            then length (random_seed (seed_draw env)) = 16
               \<and> list_all is_alnum (random_seed (seed_draw env))
            else True)"
    using random_seed_ok [of "seed_draw env"] by simp
  show ?thesis
    apply (rule exI [of _ ?oid])
    apply (rule exI [of _ ts])
    apply (rule exI [of _ ctr])
    apply (intro conjI)
             apply (rule run)
            apply (rule len)
           apply (rule hexs)
          apply (rule refl)
         apply (rule ts(2))
        apply (rule ts(3))
       apply (rule ctr(2))
      apply (rule ctr(3))
     apply (rule seed)
    apply (rule rnd)
    done
qed


lemma example_object_id: "generateObjectId example_hash example_env (Some ''abc'') = Inr ''6553f100abcdef012345678901020304''"
  by (simp add: example_env_def example_hash_def generateObjectId_def effective_seed_def writeUInt32BE_def padStart_def toHex_def hex_byte_def hex_digit_def)

text \<open>
  Claim C2 as the spec words it says the function never fails. With the clock at
  4294967296000 ms (7 February 2106) the time in seconds is \<open>2^32\<close>, which
  \<^verbatim>\<open>writeUInt32BE\<close> refuses.
\<close>

theorem generateObjectId_late_clock_counterexample:
  "generateObjectId example_hash (example_env\<lparr>now_ms := 4294967296000\<rparr>) (Some ''abc'')
     = Inl (RangeError ''ERR_OUT_OF_RANGE'')"
  by (simp add: example_env_def generateObjectId_def effective_seed_def writeUInt32BE_def)

text \<open>A run at the sample clock.\<close>

theorem generateObjectId_ok_witness:
  "0 \<le> now_ms example_env \<and> now_ms example_env div 1000 < 4294967296
   \<and> (\<exists>oid. generateObjectId example_hash example_env (Some ''abc'') = Inr oid \<and> length oid = 32
          \<and> list_all is_lower_hex oid)
   \<and> generateObjectId example_hash example_env (Some ''abc'') = Inr ''6553f100abcdef012345678901020304''"
proof -
  have h1: "0 \<le> now_ms example_env" by (simp add: example_env_def)
  have h2: "now_ms example_env div 1000 < 4294967296" by (simp add: example_env_def)
  from generateObjectId_ok [OF h1 h2, of example_hash "Some ''abc''"]
  have "\<exists>oid. generateObjectId example_hash example_env (Some ''abc'') = Inr oid \<and> length oid = 32
          \<and> list_all is_lower_hex oid"
    by blast
  with h1 h2 example_object_id show ?thesis by blast
qed

section \<open>Properties of the table path: validation and round trips\<close>

lemma execute_log: "fst (execute c log stmt) = log @ [stmt]"
  by (simp add: execute_def)

lemma execute_eq: "execute c log stmt = (log @ [stmt], c (length log) stmt)"
  by (simp add: execute_def)

lemma catalog_phase_None: "catalog_phase c own tbl None = ([], Inr '', t.ROWID AS ROWID'')"
  by (simp add: catalog_phase_def)

lemma catalog_phase_too_many:
  "3 < length cols \<Longrightarrow>
     catalog_phase c own tbl (Some cols) = ([], Inl (Error ''Exceeds max columns for metadata''))"
  by (simp add: catalog_phase_def)

lemma catalog_phase_log:
  "length cols \<le> 3 \<Longrightarrow>
     fst (catalog_phase c own tbl (Some cols)) = [ColSql (toUpperCase own) (toUpperCase tbl)]"
  by (simp add: catalog_phase_def execute_eq split: sum.splits option.splits)

lemma catalog_phase_kinds:
  "map kind_of (fst (catalog_phase c own tbl mcols))
     = (if mcols = None \<or> 3 < length (the mcols) then [] else [Catalog])"
proof (cases mcols)
  case None
  then show ?thesis by (simp add: catalog_phase_None)
next
  case (Some cols)
  then show ?thesis
    by (cases "3 < length cols") (simp_all add: catalog_phase_too_many catalog_phase_log)
qed

lemma getUsername_log: "fst (getUsername c log) = log @ [UserSql]"
  by (simp add: getUsername_def execute_eq split: sum.splits)

lemma main_phase_kinds:
  "\<exists>n. map kind_of (fst (main_phase w own tbl col mcols sql log))
         = map kind_of log @ take n [Main, User] \<and> 0 < n"
proof (cases "db w (length log) (MainSql (mainSql col sql own tbl) m_params_json)")
  case (Inl e)
  then have "map kind_of (fst (main_phase w own tbl col mcols sql log))
         = map kind_of log @ take 1 [Main, User]"
    by (simp add: main_phase_def execute_eq)
  then show ?thesis by (intro exI [of _ 1]) simp
next
  case (Inr res)
  obtain log2 r where g: "getUsername (db w) (log @ [MainSql (mainSql col sql own tbl) m_params_json]) = (log2, r)"
    by (cases "getUsername (db w) (log @ [MainSql (mainSql col sql own tbl) m_params_json])")
  have log2: "log2 = log @ [MainSql (mainSql col sql own tbl) m_params_json, UserSql]"
    using getUsername_log [of "db w" "log @ [MainSql (mainSql col sql own tbl) m_params_json]"] g by simp
  have "fst (main_phase w own tbl col mcols sql log) = log2"
    using Inr g by (simp add: main_phase_def execute_eq split: sum.splits option.splits)
  then have "map kind_of (fst (main_phase w own tbl col mcols sql log))
         = map kind_of log @ take 2 [Main, User]"
    by (simp add: log2)
  then show ?thesis by (intro exI [of _ 2]) simp
qed

lemma valid_examples:
  "isValidIdentifier ''TEST_USER''" "isValidIdentifier ''test_table''"
  "isValidIdentifier ''CONTENT_COLUMN''" "isValidIdentifier ''ID''" "isValidIdentifier ''_oid''"
  "isValidIdentifier ''title''"
  "\<not> isValidIdentifier ''invalid_table_name!''" "\<not> isValidIdentifier ''bad col''"
  by (simp_all add: ident_start_def ident_char_def)

lemma upper_examples:
  "toUpperCase ''TEST_USER'' = ''TEST_USER''" "toUpperCase ''test_table'' = ''TEST_TABLE''"
  by code_simp+

lemma example_colTypes:
  "colTypes_of example_catalog
     = \<lparr> props = [''ID'' \<mapsto> Str ''NUMBER'', ''_oid'' \<mapsto> Str ''NUMBER'',
                 ''title'' \<mapsto> Str ''VARCHAR2'', ''CONTENT_COLUMN'' \<mapsto> Str ''CLOB''],
         linked = True \<rparr>"
  by (simp add: colTypes_of_def example_catalog_def getprop_def pset_def new_object_def)

text \<open>
  The column types are read through the prototype chain of a plain object: the name
  \<^verbatim>\<open>constructor\<close>, which the catalog does not list, finds the function of that name
  and is rejected for its type, not as missing; a catalog column named \<^verbatim>\<open>__proto__\<close>
  stores nothing and reads as the prototype object.
\<close>

lemma example_inherited_column:
  "check_col ''test_table'' (colTypes_of example_catalog) ''constructor''
     = Inl (Error ''The datatype for the column constructor is not supported'')"
  "check_col ''test_table'' (colTypes_of example_catalog) ''missing''
     = Inl (Error ''Column missing not found in table test_table'')"
  "check_col ''test_table''
       (colTypes_of [[''COLUMN_NAME'' \<mapsto> DbStr ''__proto__'', ''DATA_TYPE'' \<mapsto> DbStr ''NUMBER'']])
       ''__proto__''
     = Inl (Error ''The datatype for the column __proto__ is not supported'')"
proof -
  show "check_col ''test_table'' (colTypes_of example_catalog) ''constructor''
     = Inl (Error ''The datatype for the column constructor is not supported'')"
    by (simp add: check_col_def example_colTypes pget_def inherited_def
          object_prototype_names_def supported_types_def ident_start_def ident_char_def)
  show "check_col ''test_table'' (colTypes_of example_catalog) ''missing''
     = Inl (Error ''Column missing not found in table test_table'')"
    by (simp add: check_col_def example_colTypes pget_def inherited_def
          object_prototype_names_def supported_types_def ident_start_def ident_char_def)
  show "check_col ''test_table''
       (colTypes_of [[''COLUMN_NAME'' \<mapsto> DbStr ''__proto__'', ''DATA_TYPE'' \<mapsto> DbStr ''NUMBER'']])
       ''__proto__''
     = Inl (Error ''The datatype for the column __proto__ is not supported'')"
    by (simp add: check_col_def pget_def inherited_def object_prototype_names_def
          supported_types_def ident_start_def ident_char_def colTypes_of_def getprop_def
          pset_def new_object_def)
qed

lemma example_catalog_phase:
  "catalog_phase example_db ''TEST_USER'' ''test_table'' (Some [''ID''])
     = ([ColSql ''TEST_USER'' ''TEST_TABLE''], Inr '', t.ROWID AS ROWID, t.ID'')"
  by (simp add: catalog_phase_def execute_eq upper_examples example_colTypes check_col_def
        valid_examples pget_def supported_types_def del: isValidIdentifier.simps)

lemma example_log:
  "map kind_of (fst (load example_world example_loader)) = [Catalog, Main, User]"
  by (simp add: load_def loadFromTable_def example_loader_def example_world_def valid_examples
        example_catalog_phase main_phase_def execute_eq getUsername_def
      del: isValidIdentifier.simps split: sum.splits)

lemma valid_nonempty: "isValidIdentifier s \<Longrightarrow> s \<noteq> []"
  by (cases s) simp_all

lemma loadFromTable_valid:
  assumes "owner l = Some own" and "colname l = Some col"
    and "isValidIdentifier own" and "isValidIdentifier (loadFrom l)" and "isValidIdentifier col"
  shows "loadFromTable w l =
     (case catalog_phase (db w) own (loadFrom l) (mdata_cols l) of
        (log, Inl e) \<Rightarrow> (log, Inl e)
      | (log, Inr mdataColsSql) \<Rightarrow>
          main_phase w own (loadFrom l) col (mdata_cols l) mdataColsSql log)"
  using assms valid_nonempty [OF assms(3)] valid_nonempty [OF assms(5)]
  by (simp add: loadFromTable_def del: isValidIdentifier.simps)

lemma loadFromTable_invalid:
  assumes "owner l = Some own" and "colname l = Some col"
    and "\<not> (isValidIdentifier own \<and> isValidIdentifier (loadFrom l) \<and> isValidIdentifier col)"
  shows "fst (loadFromTable w l) = [] \<and> (\<exists>e. snd (loadFromTable w l) = Inl e)"
  using assms by (auto simp add: loadFromTable_def simp del: isValidIdentifier.simps)

lemma loadFromTable_missing:
  assumes "owner l = None \<or> colname l = None"
  shows "loadFromTable w l = ([], Inl missing_config)"
  using assms by (auto simp add: loadFromTable_def split: option.splits)

lemma check_cols_invalid:
  "c \<in> set cols \<Longrightarrow> \<not> isValidIdentifier c \<Longrightarrow> \<exists>e. check_cols tbl ct cols = Inl e"
proof (induction cols)
  case Nil
  then show ?case by simp
next
  case (Cons a cols)
  show ?case
  proof (cases "check_col tbl ct a")
    case (Inl e)
    then show ?thesis by simp
  next
    case (Inr u)
    then have "isValidIdentifier a"
      by (auto simp add: check_col_def simp del: isValidIdentifier.simps split: if_splits)
    with Cons.prems have "c \<in> set cols" by auto
    with Cons Inr show ?thesis by simp
  qed
qed

lemma check_cols_first_invalid:
  "check_cols tbl ct pre = Inr () \<Longrightarrow> \<not> isValidIdentifier c \<Longrightarrow>
     check_cols tbl ct (pre @ c # post) = Inl (Error (''Invalid column name in mdata_cols: '' @ c))"
proof (induction pre)
  case Nil
  then show ?case by (simp add: check_col_def del: isValidIdentifier.simps)
next
  case (Cons a pre)
  then show ?case by (cases "check_col tbl ct a") simp_all
qed

lemma catalog_phase_invalid_col:
  assumes "c \<in> set cols" and "\<not> isValidIdentifier c"
  shows "\<exists>e. snd (catalog_phase cn own tbl (Some cols)) = Inl e"
proof (cases "3 < length cols")
  case True
  then show ?thesis by (simp add: catalog_phase_too_many)
next
  case short: False
  show ?thesis
  proof (cases "cn 0 (ColSql (toUpperCase own) (toUpperCase tbl))")
    case (Inl e)
    with short show ?thesis by (simp add: catalog_phase_def execute_eq)
  next
    case (Inr res)
    show ?thesis
    proof (cases "rows res")
      case None
      with short Inr show ?thesis by (simp add: catalog_phase_def execute_eq)
    next
      case (Some rs)
      obtain e where "check_cols tbl (colTypes_of rs) cols = Inl e"
        using check_cols_invalid [OF assms] by blast
      with short Inr Some show ?thesis by (simp add: catalog_phase_def execute_eq)
    qed
  qed
qed

lemma catalog_phase_first_invalid:
  assumes "length (pre @ c # post) \<le> 3"
    and "cn 0 (ColSql (toUpperCase own) (toUpperCase tbl)) = Inr res"
    and "rows res = Some colRows"
    and "check_cols tbl (colTypes_of colRows) pre = Inr ()"
    and "\<not> isValidIdentifier c"
  shows "catalog_phase cn own tbl (Some (pre @ c # post))
     = ([ColSql (toUpperCase own) (toUpperCase tbl)],
        Inl (Error (''Invalid column name in mdata_cols: '' @ c)))"
proof -
  have short: "\<not> 3 < length (pre @ c # post)" using assms(1) by simp
  show ?thesis
    unfolding catalog_phase_def execute_eq
    using short assms(2,3) check_cols_first_invalid [OF assms(4,5), of post]
    by (simp del: isValidIdentifier.simps)
qed

text \<open>
  Claim C7. A table-path \<^verbatim>\<open>load()\<close> that requests more than 3 extra metadata columns
  is rejected with an error and not a single statement has been sent to the database; when
  the owner, table and content-column names are in order, the error is
  \<^verbatim>\<open>Exceeds max columns for metadata\<close>.
\<close>

theorem too_many_columns_rejected:
  assumes "loadFromType l = TABLE" and "mdata_cols l = Some cols" and "3 < length cols"
  shows "fst (load w l) = [] \<and> (\<exists>e. snd (load w l) = Inl e)
    \<and> (owner l = Some own \<and> colname l = Some col \<and> isValidIdentifier own
         \<and> isValidIdentifier (loadFrom l) \<and> isValidIdentifier col
       \<longrightarrow> snd (load w l) = Inl (Error ''Exceeds max columns for metadata''))"
proof -
  have ld: "load w l = loadFromTable w l" using assms(1) by (simp add: load_def)
  have cat: "catalog_phase (db w) o' (loadFrom l) (mdata_cols l)
               = ([], Inl (Error ''Exceeds max columns for metadata''))" for o'
    using assms(2,3) by (simp add: catalog_phase_too_many)
  have a: "fst (loadFromTable w l) = [] \<and> (\<exists>e. snd (loadFromTable w l) = Inl e)"
  proof (cases "owner l")
    case None
    then show ?thesis by (simp add: loadFromTable_missing)
  next
    case o: (Some own')
    show ?thesis
    proof (cases "colname l")
      case None
      then show ?thesis by (simp add: loadFromTable_missing)
    next
      case c: (Some col')
      show ?thesis
      proof (cases "isValidIdentifier own' \<and> isValidIdentifier (loadFrom l) \<and> isValidIdentifier col'")
        case True
        then show ?thesis using loadFromTable_valid [OF o c, of w] cat by simp
      next
        case False
        then show ?thesis by (rule loadFromTable_invalid [OF o c])
      qed
    qed
  qed
  have b: "owner l = Some own \<and> colname l = Some col \<and> isValidIdentifier own
         \<and> isValidIdentifier (loadFrom l) \<and> isValidIdentifier col
       \<longrightarrow> snd (loadFromTable w l) = Inl (Error ''Exceeds max columns for metadata'')"
    using loadFromTable_valid [of l own col w] cat by simp
  from a b show ?thesis unfolding ld by simp
qed

text \<open>Four extra columns on the sample loader.\<close>

theorem too_many_columns_rejected_witness:
  "loadFromType (example_loader\<lparr>mdata_cols := Some [''A'', ''B'', ''C'', ''D'']\<rparr>) = TABLE
   \<and> 3 < length [''A'', ''B'', ''C'', ''D'']
   \<and> load example_world (example_loader\<lparr>mdata_cols := Some [''A'', ''B'', ''C'', ''D'']\<rparr>)
       = ([], Inl (Error ''Exceeds max columns for metadata''))"
proof -
  let ?l = "example_loader\<lparr>mdata_cols := Some [''A'', ''B'', ''C'', ''D'']\<rparr>"
  have h1: "loadFromType ?l = TABLE" by (simp add: example_loader_def)
  have h2: "mdata_cols ?l = Some [''A'', ''B'', ''C'', ''D'']" by simp
  have h3: "3 < length [''A'', ''B'', ''C'', ''D'']" by simp
  have v: "owner ?l = Some ''TEST_USER'' \<and> colname ?l = Some ''CONTENT_COLUMN''
         \<and> isValidIdentifier ''TEST_USER''
         \<and> isValidIdentifier (loadFrom ?l) \<and> isValidIdentifier ''CONTENT_COLUMN''"
    by (simp add: example_loader_def valid_examples del: isValidIdentifier.simps)
  from too_many_columns_rejected [OF h1 h2 h3, of example_world "''TEST_USER''" "''CONTENT_COLUMN''"] v
  have "fst (load example_world ?l) = []"
    and "snd (load example_world ?l) = Inl (Error ''Exceeds max columns for metadata'')"
    by blast+
  then have "load example_world ?l = ([], Inl (Error ''Exceeds max columns for metadata''))"
    by (simp add: prod_eq_iff)
  with h1 h3 show ?thesis by blast
qed

lemma loadFromTable_kinds:
  "\<exists>n. map kind_of (fst (loadFromTable w l))
         = take n (if mdata_cols l = None then [Main, User] else [Catalog, Main, User])"
proof (cases "\<exists>own col. owner l = Some own \<and> colname l = Some col \<and> isValidIdentifier own
         \<and> isValidIdentifier (loadFrom l) \<and> isValidIdentifier col")
  case False
  have "fst (loadFromTable w l) = []"
  proof (cases "owner l")
    case None
    then show ?thesis by (simp add: loadFromTable_missing)
  next
    case o: (Some own)
    show ?thesis
    proof (cases "colname l")
      case None
      then show ?thesis by (simp add: loadFromTable_missing)
    next
      case c: (Some col)
      with o False show ?thesis using loadFromTable_invalid [OF o c, of w] by blast
    qed
  qed
  then show ?thesis by (intro exI [of _ 0]) simp
next
  case True
  then obtain own col where v: "owner l = Some own" "colname l = Some col" "isValidIdentifier own"
      "isValidIdentifier (loadFrom l)" "isValidIdentifier col"
    by blast
  note run = loadFromTable_valid [OF v, of w]
  obtain log r where cp: "catalog_phase (db w) own (loadFrom l) (mdata_cols l) = (log, r)"
    by (cases "catalog_phase (db w) own (loadFrom l) (mdata_cols l)")
  have kinds: "map kind_of log = (if mdata_cols l = None \<or> 3 < length (the (mdata_cols l)) then [] else [Catalog])"
    using catalog_phase_kinds [of "db w" own "loadFrom l" "mdata_cols l"] cp by simp
  show ?thesis
  proof (cases r)
    case (Inl e)
    then have f: "fst (loadFromTable w l) = log" using run cp by simp
    show ?thesis
    proof (cases "mdata_cols l = None \<or> 3 < length (the (mdata_cols l))")
      case True
      with kinds f show ?thesis by (intro exI [of _ 0]) simp
    next
      case False
      with kinds f show ?thesis by (intro exI [of _ 1]) simp
    qed
  next
    case (Inr sql)
    then have f: "fst (loadFromTable w l) = fst (main_phase w own (loadFrom l) col (mdata_cols l) sql log)"
      using run cp by simp
    obtain n where n: "map kind_of (fst (main_phase w own (loadFrom l) col (mdata_cols l) sql log))
         = map kind_of log @ take n [Main, User]"
      using main_phase_kinds [of w own "loadFrom l" col "mdata_cols l" sql log] by blast
    show ?thesis
    proof (cases "mdata_cols l")
      case None
      with kinds n f show ?thesis by (intro exI [of _ n]) simp
    next
      case (Some cols)
      have "\<not> 3 < length cols"
      proof
        assume "3 < length cols"
        then have "snd (catalog_phase (db w) own (loadFrom l) (mdata_cols l)) = Inl (Error ''Exceeds max columns for metadata'')"
          using Some by (simp add: catalog_phase_too_many)
        with cp Inr show False by simp
      qed
      with kinds Some have "map kind_of log = [Catalog]" by simp
      with n f Some show ?thesis by (intro exI [of _ "Suc n"]) simp
    qed
  qed
qed

text \<open>
  Claim C6, as the code has it. A \<^verbatim>\<open>load()\<close> makes at most three round trips, in this
  order: the catalog lookup (only when a list of extra metadata columns was supplied), the
  main query, and the session-identity query of \<^verbatim>\<open>getUsername\<close>; the sequence of round
  trips actually made is an initial part of that sequence.
\<close>

theorem load_round_trips:
  "(\<exists>n. map kind_of (fst (load w l))
         = take n (if mdata_cols l = None then [Main, User] else [Catalog, Main, User]))
   \<and> length (fst (load w l)) \<le> 3"
proof -
  have a: "\<exists>n. map kind_of (fst (load w l))
         = take n (if mdata_cols l = None then [Main, User] else [Catalog, Main, User])"
  proof (cases "loadFromType l")
    case TABLE
    then show ?thesis using loadFromTable_kinds [of w l] by (simp add: load_def)
  next
    case FILE
    then show ?thesis by (intro exI [of _ 0]) (simp add: load_def)
  next
    case DIR
    then show ?thesis by (intro exI [of _ 0]) (simp add: load_def)
  qed
  then obtain n where "map kind_of (fst (load w l))
         = take n (if mdata_cols l = None then [Main, User] else [Catalog, Main, User])" ..
  then have "length (map kind_of (fst (load w l))) \<le> 3"
    by (cases "mdata_cols l = None") (simp_all add: min_def)
  then have "length (fst (load w l)) \<le> 3" by simp
  with a show ?thesis by blast
qed

text \<open>
  Claim C6 as the spec words it allows two round trips at most. The sample load, with one
  extra column, makes three: \<^verbatim>\<open>getUsername\<close> goes to the database too.
\<close>

theorem three_round_trips_counterexample:
  "map kind_of (fst (load example_world example_loader)) = [Catalog, Main, User]
   \<and> length (fst (load example_world example_loader)) = 3"
proof -
  have k: "map kind_of (fst (load example_world example_loader)) = [Catalog, Main, User]"
    by (rule example_log)
  have "length (fst (load example_world example_loader))
          = length (map kind_of (fst (load example_world example_loader)))"
    by simp
  also have "\<dots> = 3" unfolding k by simp
  finally show ?thesis using k by simp
qed

text \<open>
  Claim C1, as the code has it. In a table-path \<^verbatim>\<open>load()\<close> with an owner and a
  content column given: if the owner, the table name or the content-column name does not
  match the pattern, the call is rejected before any statement is sent, with
  \<^verbatim>\<open>Invalid owner name\<close>, \<^verbatim>\<open>Invalid table name\<close> or \<^verbatim>\<open>Invalid column name\<close> for
  the first of them that fails; an empty owner or column name gives the missing-
  configuration error \<^verbatim>\<open>Owner and column name must be specified for loading from a
  table\<close> instead. If an extra metadata column name does not match the
  pattern, the call is rejected as well, and the main query, into whose text the name would
  be spliced, is never sent; at most the catalog lookup, which binds its arguments, has
  been made by then. When the catalog lookup has answered and the columns listed before
  the offending one pass their checks, the error is
  \<^verbatim>\<open>Invalid column name in mdata_cols: \<close> followed by the name.
\<close>

theorem identifier_violations_rejected:
  assumes "loadFromType l = TABLE" and "owner l = Some own" and "colname l = Some col"
  shows "(\<not> (isValidIdentifier own \<and> isValidIdentifier (loadFrom l) \<and> isValidIdentifier col)
            \<longrightarrow> fst (load w l) = [] \<and> (\<exists>e. snd (load w l) = Inl e))
    \<and> (own = [] \<or> col = [] \<longrightarrow> load w l = ([], Inl missing_config))
    \<and> (own \<noteq> [] \<and> col \<noteq> [] \<and> \<not> isValidIdentifier own
            \<longrightarrow> snd (load w l) = Inl (Error ''Invalid owner name''))
    \<and> (isValidIdentifier own \<and> col \<noteq> [] \<and> \<not> isValidIdentifier (loadFrom l)
            \<longrightarrow> snd (load w l) = Inl (Error ''Invalid table name''))
    \<and> (isValidIdentifier own \<and> isValidIdentifier (loadFrom l) \<and> col \<noteq> []
          \<and> \<not> isValidIdentifier col
            \<longrightarrow> snd (load w l) = Inl (Error ''Invalid column name''))
    \<and> (mdata_cols l = Some cols \<and> c \<in> set cols \<and> \<not> isValidIdentifier c
            \<longrightarrow> (\<exists>e. snd (load w l) = Inl e) \<and> Main \<notin> set (map kind_of (fst (load w l)))
                \<and> length (fst (load w l)) \<le> 1)
    \<and> (isValidIdentifier own \<and> isValidIdentifier (loadFrom l) \<and> isValidIdentifier col
          \<and> mdata_cols l = Some (pre @ c # post) \<and> length (pre @ c # post) \<le> 3
          \<and> db w 0 (ColSql (toUpperCase own) (toUpperCase (loadFrom l))) = Inr res
          \<and> rows res = Some colRows
          \<and> check_cols (loadFrom l) (colTypes_of colRows) pre = Inr ()
          \<and> \<not> isValidIdentifier c
            \<longrightarrow> load w l = ([ColSql (toUpperCase own) (toUpperCase (loadFrom l))],
                             Inl (Error (''Invalid column name in mdata_cols: '' @ c))))"
proof -
  have ld: "load w l = loadFromTable w l" using assms(1) by (simp add: load_def)
  have p1: "\<not> (isValidIdentifier own \<and> isValidIdentifier (loadFrom l) \<and> isValidIdentifier col)
            \<longrightarrow> fst (load w l) = [] \<and> (\<exists>e. snd (load w l) = Inl e)"
    unfolding ld using loadFromTable_invalid [OF assms(2,3), of w] by blast
  have p0: "own = [] \<or> col = [] \<longrightarrow> load w l = ([], Inl missing_config)"
    unfolding ld using assms(2,3) by (auto simp add: loadFromTable_def)
  have p2: "own \<noteq> [] \<and> col \<noteq> [] \<and> \<not> isValidIdentifier own
            \<longrightarrow> snd (load w l) = Inl (Error ''Invalid owner name'')"
    unfolding ld using assms(2,3) by (simp add: loadFromTable_def del: isValidIdentifier.simps)
  have p3: "isValidIdentifier own \<and> col \<noteq> [] \<and> \<not> isValidIdentifier (loadFrom l)
            \<longrightarrow> snd (load w l) = Inl (Error ''Invalid table name'')"
    unfolding ld using assms(2,3) valid_nonempty [of own]
    by (auto simp add: loadFromTable_def simp del: isValidIdentifier.simps)
  have p4: "isValidIdentifier own \<and> isValidIdentifier (loadFrom l) \<and> col \<noteq> []
          \<and> \<not> isValidIdentifier col
            \<longrightarrow> snd (load w l) = Inl (Error ''Invalid column name'')"
    unfolding ld using assms(2,3) valid_nonempty [of own]
    by (auto simp add: loadFromTable_def simp del: isValidIdentifier.simps)
  have p5: "mdata_cols l = Some cols \<and> c \<in> set cols \<and> \<not> isValidIdentifier c
            \<longrightarrow> (\<exists>e. snd (load w l) = Inl e) \<and> Main \<notin> set (map kind_of (fst (load w l)))
                \<and> length (fst (load w l)) \<le> 1"
  proof (intro impI, elim conjE)
    assume m: "mdata_cols l = Some cols" and c: "c \<in> set cols" "\<not> isValidIdentifier c"
    show "(\<exists>e. snd (load w l) = Inl e) \<and> Main \<notin> set (map kind_of (fst (load w l)))
                \<and> length (fst (load w l)) \<le> 1"
    proof (cases "isValidIdentifier own \<and> isValidIdentifier (loadFrom l) \<and> isValidIdentifier col")
      case False
      then show ?thesis unfolding ld using loadFromTable_invalid [OF assms(2,3), of w] by auto
    next
      case True
      obtain log r where cp: "catalog_phase (db w) own (loadFrom l) (Some cols) = (log, r)"
        by (cases "catalog_phase (db w) own (loadFrom l) (Some cols)")
      obtain e where e: "r = Inl e"
        using catalog_phase_invalid_col [OF c, of "db w" own "loadFrom l"] cp by auto
      have run: "loadFromTable w l = (log, Inl e)"
        using loadFromTable_valid [OF assms(2,3), of w] True m cp e by simp
      have "map kind_of log = (if 3 < length cols then [] else [Catalog])"
        using catalog_phase_kinds [of "db w" own "loadFrom l" "Some cols"] cp by simp
      then have "Main \<notin> set (map kind_of log) \<and> length (map kind_of log) \<le> 1"
        by (simp split: if_splits)
      then show ?thesis unfolding ld run by simp
    qed
  qed
  have p6: "isValidIdentifier own \<and> isValidIdentifier (loadFrom l) \<and> isValidIdentifier col
          \<and> mdata_cols l = Some (pre @ c # post) \<and> length (pre @ c # post) \<le> 3
          \<and> db w 0 (ColSql (toUpperCase own) (toUpperCase (loadFrom l))) = Inr res
          \<and> rows res = Some colRows
          \<and> check_cols (loadFrom l) (colTypes_of colRows) pre = Inr ()
          \<and> \<not> isValidIdentifier c
            \<longrightarrow> load w l = ([ColSql (toUpperCase own) (toUpperCase (loadFrom l))],
                             Inl (Error (''Invalid column name in mdata_cols: '' @ c)))"
  proof (intro impI, elim conjE)
    assume v: "isValidIdentifier own" "isValidIdentifier (loadFrom l)" "isValidIdentifier col"
      and m: "mdata_cols l = Some (pre @ c # post)"
      and rest: "length (pre @ c # post) \<le> 3"
        "db w 0 (ColSql (toUpperCase own) (toUpperCase (loadFrom l))) = Inr res"
        "rows res = Some colRows"
        "check_cols (loadFrom l) (colTypes_of colRows) pre = Inr ()"
        "\<not> isValidIdentifier c"
    show "load w l = ([ColSql (toUpperCase own) (toUpperCase (loadFrom l))],
                             Inl (Error (''Invalid column name in mdata_cols: '' @ c)))"
      unfolding ld loadFromTable_valid [OF assms(2,3) v] m
        catalog_phase_first_invalid [of pre c post "db w" own "loadFrom l" res colRows, OF rest]
      by simp
  qed
  from p1 p0 p2 p3 p4 p5 p6 show ?thesis by (intro conjI)
qed

lemma invalid_examples:
  "\<not> isValidIdentifier ''TEST USER''" "\<not> isValidIdentifier ''CONTENT-COLUMN''"
  by (simp_all add: ident_start_def ident_char_def)

lemma example_parts:
  "loadFromType example_loader = TABLE" "owner example_loader = Some ''TEST_USER''"
  "colname example_loader = Some ''CONTENT_COLUMN''" "loadFrom example_loader = ''test_table''"
  "mdata_cols example_loader = Some [''ID'']" "db example_world = example_db"
  by (simp_all add: example_loader_def example_world_def)

text \<open>
  Claim C1 as the spec words it has every violation rejected before any database query
  executes. An extra metadata column that fails the pattern is found only after the
  catalog lookup has been sent.
\<close>

theorem late_column_check_counterexample:
  "\<not> isValidIdentifier ''bad col''
   \<and> load example_world (example_loader\<lparr>mdata_cols := Some [''bad col'']\<rparr>)
       = ([ColSql ''TEST_USER'' ''TEST_TABLE''],
          Inl (Error ''Invalid column name in mdata_cols: bad col''))"
proof -
  have "catalog_phase example_db ''TEST_USER'' ''test_table'' (Some [''bad col''])
     = ([ColSql ''TEST_USER'' ''TEST_TABLE''],
          Inl (Error ''Invalid column name in mdata_cols: bad col''))"
    by (simp add: catalog_phase_def execute_eq upper_examples check_col_def valid_examples
          del: isValidIdentifier.simps)
  then show ?thesis
    by (simp add: load_def loadFromTable_def example_parts valid_examples
          del: isValidIdentifier.simps)
qed

text \<open>An empty owner, and an owner, a table name, a content column and an extra column
  that fail the pattern, each on the sample loader.\<close>

theorem identifier_violations_rejected_witness:
  "load example_world (example_loader\<lparr>owner := Some []\<rparr>) = ([], Inl missing_config)
   \<and> load example_world (example_loader\<lparr>owner := Some ''TEST USER''\<rparr>)
       = ([], Inl (Error ''Invalid owner name''))
   \<and> load example_world (example_loader\<lparr>loadFrom := ''invalid_table_name!''\<rparr>)
       = ([], Inl (Error ''Invalid table name''))
   \<and> load example_world (example_loader\<lparr>colname := Some ''CONTENT-COLUMN''\<rparr>)
       = ([], Inl (Error ''Invalid column name''))
   \<and> load example_world (example_loader\<lparr>mdata_cols := Some [''bad col'']\<rparr>)
       = ([ColSql (toUpperCase ''TEST_USER'') (toUpperCase ''test_table'')],
          Inl (Error (''Invalid column name in mdata_cols: '' @ ''bad col'')))"
proof -
  let ?w = example_world
  let ?l1 = "example_loader\<lparr>owner := Some ''TEST USER''\<rparr>"
  let ?l2 = "example_loader\<lparr>loadFrom := ''invalid_table_name!''\<rparr>"
  let ?l3 = "example_loader\<lparr>colname := Some ''CONTENT-COLUMN''\<rparr>"
  let ?l4 = "example_loader\<lparr>mdata_cols := Some [''bad col'']\<rparr>"
  have a0: "load ?w (example_loader\<lparr>owner := Some []\<rparr>) = ([], Inl missing_config)"
    using identifier_violations_rejected [of "example_loader\<lparr>owner := Some []\<rparr>" "[]"
        "''CONTENT_COLUMN''" ?w]
    by (simp add: example_parts)
  have a1: "fst (load ?w ?l1) = [] \<and> snd (load ?w ?l1) = Inl (Error ''Invalid owner name'')"
    using identifier_violations_rejected [of ?l1 "''TEST USER''" "''CONTENT_COLUMN''" ?w]
      invalid_examples
    by (simp add: example_parts del: isValidIdentifier.simps)
  have a2: "fst (load ?w ?l2) = [] \<and> snd (load ?w ?l2) = Inl (Error ''Invalid table name'')"
    using identifier_violations_rejected [of ?l2 "''TEST_USER''" "''CONTENT_COLUMN''" ?w]
      valid_examples
    by (simp add: example_parts del: isValidIdentifier.simps)
  have a3: "fst (load ?w ?l3) = [] \<and> snd (load ?w ?l3) = Inl (Error ''Invalid column name'')"
    using identifier_violations_rejected [of ?l3 "''TEST_USER''" "''CONTENT-COLUMN''" ?w]
      valid_examples invalid_examples
    by (simp add: example_parts del: isValidIdentifier.simps)
  have a4: "load ?w ?l4
       = ([ColSql (toUpperCase ''TEST_USER'') (toUpperCase ''test_table'')],
          Inl (Error (''Invalid column name in mdata_cols: '' @ ''bad col'')))"
    using identifier_violations_rejected [of ?l4 "''TEST_USER''" "''CONTENT_COLUMN''" ?w
        "[''bad col'']" "''bad col''" "[]" "[]" "\<lparr> rows = Some example_catalog, outBinds = None \<rparr>"
        example_catalog]
      valid_examples
    by (simp add: example_parts del: isValidIdentifier.simps)
  from a0 a1 a2 a3 a4 show ?thesis by (simp add: prod_eq_iff)
qed

section \<open>Properties of the table path: the documents\<close>

lemma generateObjectId_runs:
  assumes "clock_ok env"
  shows "\<exists>oid. generateObjectId sha env seed = Inr oid"
proof -
  have "0 \<le> now_ms env" using assms by (simp add: clock_ok_def)
  then have t0: "0 \<le> now_ms env div 1000" by simp
  have t1: "now_ms env div 1000 < 4294967296" using assms by (simp add: clock_ok_def)
  obtain ts where ts: "writeUInt32BE (now_ms env div 1000) = Inr ts"
    using writeUInt32BE_ok [OF t0 t1] by blast
  have c1: "uint (counter_draw env) < 4294967296"
    using uint_lt2p [of "counter_draw env"] by simp
  obtain ctr where ctr: "writeUInt32BE (uint (counter_draw env)) = Inr ctr"
    using writeUInt32BE_ok [OF _ c1] by auto
  show ?thesis using ts ctr by (simp add: generateObjectId_def Let_def)
qed

lemma row_metadata_textual:
  "textual (getprop row ''MDATA'') \<Longrightarrow>
     row_metadata tok row
       = Inr (if html_signature (getprop row ''MDATA'')
              then parsed_metadata tok (getprop row ''MDATA'') else Map.empty)"
  by (cases "getprop row ''MDATA''")
     (simp_all add: row_metadata_def textual_def html_signature_def parsed_metadata_def
        startsWith_def)

lemma row_metadata_Inr:
  "row_metadata tok row = Inr md \<Longrightarrow>
     textual (getprop row ''MDATA'')
     \<and> md = (if html_signature (getprop row ''MDATA'')
             then parsed_metadata tok (getprop row ''MDATA'') else Map.empty)"
  by (cases "getprop row ''MDATA''")
     (auto simp add: row_metadata_def textual_def html_signature_def parsed_metadata_def
        startsWith_def split: if_splits)

lemma pset_other: "x \<noteq> k \<Longrightarrow> props (pset ob k v) x = props ob x"
  by (simp add: pset_def)

lemma pset_same: "k \<noteq> ''__proto__'' \<Longrightarrow> props (pset ob k v) k = Some v"
  by (simp add: pset_def)

lemma dom_pset: "dom (props (pset ob k v)) \<subseteq> insert k (dom (props ob))"
  by (auto simp add: pset_def split: if_splits)

lemma copy_loop_other:
  "x \<notin> set cols \<Longrightarrow>
     props (foldl (\<lambda>m colName. pset m colName (getprop r colName)) ob cols) x = props ob x"
proof (induction cols arbitrary: ob)
  case Nil
  then show ?case by simp
next
  case (Cons c cols)
  then have "x \<noteq> c" "x \<notin> set cols" by auto
  with Cons.IH [of "pset ob c (getprop r c)"] show ?case by (simp add: pset_other)
qed

lemma copy_loop_listed:
  "x \<in> set cols \<Longrightarrow> x \<noteq> ''__proto__'' \<Longrightarrow>
     props (foldl (\<lambda>m colName. pset m colName (getprop r colName)) ob cols) x
       = Some (getprop r x)"
proof (induction cols arbitrary: ob)
  case Nil
  then show ?case by simp
next
  case (Cons c cols)
  show ?case
  proof (cases "x \<in> set cols")
    case True
    with Cons.IH [of "pset ob c (getprop r c)"] Cons.prems show ?thesis by simp
  next
    case False
    with Cons.prems have "x = c" by simp
    with False Cons.prems(2) show ?thesis
      by (simp add: copy_loop_other pset_same)
  qed
qed

lemma dom_copy_loop:
  "dom (props (foldl (\<lambda>m colName. pset m colName (getprop r colName)) ob cols))
     \<subseteq> dom (props ob) \<union> set cols"
proof (induction cols arbitrary: ob)
  case Nil
  then show ?case by simp
next
  case (Cons c cols)
  from Cons.IH [of "pset ob c (getprop r c)"] dom_pset [of ob c "getprop r c"]
  show ?case by auto
qed

lemma with_cols_other:
  "x \<notin> set (cols_of mcols) \<Longrightarrow> with_cols mcols r m x = m x"
  by (cases mcols) (simp_all add: with_cols_def copy_cols_def cols_of_def copy_loop_other)

lemma with_cols_listed:
  "x \<in> set (cols_of mcols) \<Longrightarrow> x \<noteq> ''__proto__'' \<Longrightarrow>
     with_cols mcols r m x = Some (getprop r x)"
  by (cases mcols) (simp_all add: with_cols_def copy_cols_def cols_of_def copy_loop_listed)

lemma dom_with_cols: "dom (with_cols mcols r m) \<subseteq> dom m \<union> set (cols_of mcols)"
proof (cases mcols)
  case None
  then show ?thesis by (simp add: with_cols_def copy_cols_def cols_of_def)
next
  case (Some cols)
  then show ?thesis
    using dom_copy_loop [of r "\<lparr> props = m, linked = True \<rparr>" cols]
    by (simp add: with_cols_def copy_cols_def cols_of_def)
qed

lemma row_document_Inr:
  assumes "row_document w env u own tbl col mcols row = Inr d"
  shows "\<exists>oid. generateObjectId (sha256 w) env
                 (Some (oid_seed u own tbl col (getprop row ''ROWID''))) = Inr oid
           \<and> textual (getprop row ''MDATA'')
           \<and> doc_metadata d
               = with_cols mcols row
                   ((if html_signature (getprop row ''MDATA'')
                     then parsed_metadata (tokenize w) (getprop row ''MDATA'') else Map.empty)
                    (''_oid'' \<mapsto> Str oid, ''_rowid'' \<mapsto> getprop row ''ROWID''))"
proof -
  obtain md where md: "row_metadata (tokenize w) row = Inr md"
    using assms by (cases "row_metadata (tokenize w) row") (simp_all add: row_document_def)
  obtain oid where oid: "generateObjectId (sha256 w) env
                 (Some (oid_seed u own tbl col (getprop row ''ROWID''))) = Inr oid"
    using assms md
    by (cases "generateObjectId (sha256 w) env
                 (Some (oid_seed u own tbl col (getprop row ''ROWID'')))")
       (simp_all add: row_document_def)
  have stamped: "pset (pset \<lparr> props = md, linked = True \<rparr> ''_oid'' (Str oid)) ''_rowid''
                   (getprop row ''ROWID'')
                 = \<lparr> props = md(''_oid'' \<mapsto> Str oid, ''_rowid'' \<mapsto> getprop row ''ROWID''),
                     linked = True \<rparr>"
    by (simp add: pset_def)
  have "doc_metadata d
          = with_cols mcols row (md(''_oid'' \<mapsto> Str oid, ''_rowid'' \<mapsto> getprop row ''ROWID''))"
    using assms md oid
    by (auto simp add: row_document_def Let_def stamped with_cols_def split: if_splits)
  with row_metadata_Inr [OF md] oid show ?thesis by blast
qed

lemma row_document_runs:
  assumes "textual (getprop row ''MDATA'')" and "clock_ok env"
  shows "\<exists>d. row_document w env u own tbl col mcols row = Inr d"
proof -
  obtain oid where "generateObjectId (sha256 w) env
                 (Some (oid_seed u own tbl col (getprop row ''ROWID''))) = Inr oid"
    using generateObjectId_runs [OF assms(2)] by blast
  then show ?thesis
    using row_metadata_textual [OF assms(1), of "tokenize w"]
    by (simp add: row_document_def Let_def)
qed

lemma rows_documents_Inr:
  "rows_documents w u own tbl col mcols i rs acc = Inr ds \<Longrightarrow>
     \<exists>ds'. ds = acc @ ds' \<and> length ds' = length rs
       \<and> (\<forall>k<length rs. row_document w (id_envs w (i + k)) u own tbl col mcols (rs ! k)
                           = Inr (ds' ! k))"
proof (induction rs arbitrary: i acc)
  case Nil
  then show ?case by simp
next
  case (Cons row rs)
  obtain d where d: "row_document w (id_envs w i) u own tbl col mcols row = Inr d"
    using Cons.prems by (cases "row_document w (id_envs w i) u own tbl col mcols row") simp_all
  with Cons.prems have "rows_documents w u own tbl col mcols (Suc i) rs (acc @ [d]) = Inr ds"
    by simp
  from Cons.IH [OF this] obtain ds' where ds': "ds = (acc @ [d]) @ ds'" "length ds' = length rs"
      and rest: "\<forall>k<length rs. row_document w (id_envs w (Suc i + k)) u own tbl col mcols (rs ! k)
                           = Inr (ds' ! k)"
    by blast
  have all: "\<forall>k<length (row # rs). row_document w (id_envs w (i + k)) u own tbl col mcols ((row # rs) ! k)
                           = Inr ((d # ds') ! k)"
  proof (intro allI impI)
    fix k assume k: "k < length (row # rs)"
    show "row_document w (id_envs w (i + k)) u own tbl col mcols ((row # rs) ! k)
                           = Inr ((d # ds') ! k)"
    proof (cases k)
      case 0
      with d show ?thesis by simp
    next
      case (Suc j)
      with k rest show ?thesis by simp
    qed
  qed
  show ?case
    by (rule exI [of _ "d # ds'"]) (use ds' all in simp)
qed

lemma rows_documents_runs:
  "(\<forall>k<length rs. textual (getprop (rs ! k) ''MDATA'') \<and> clock_ok (id_envs w (i + k))) \<Longrightarrow>
     \<exists>ds. rows_documents w u own tbl col mcols i rs acc = Inr ds"
proof (induction rs arbitrary: i acc)
  case Nil
  then show ?case by simp
next
  case (Cons row rs)
  from Cons.prems have "textual (getprop row ''MDATA'')" "clock_ok (id_envs w i)"
    by force+
  then obtain d where d: "row_document w (id_envs w i) u own tbl col mcols row = Inr d"
    using row_document_runs by blast
  have "\<forall>k<length rs. textual (getprop (rs ! k) ''MDATA'') \<and> clock_ok (id_envs w (Suc i + k))"
  proof (intro allI impI)
    fix k assume "k < length rs"
    then have "Suc k < length (row # rs)" by simp
    from Cons.prems [rule_format, OF this] show
      "textual (getprop (rs ! k) ''MDATA'') \<and> clock_ok (id_envs w (Suc i + k))" by simp
  qed
  from Cons.IH [OF this] d show ?case by simp
qed

lemma getUsername_eq:
  "getUsername c lg =
     (lg @ [UserSql],
      case c (length lg) UserSql of
        Inl e \<Rightarrow> Inl e
      | Inr res \<Rightarrow> Inr (let u = first_cell (rows res) ''0''
                        in if truthy u then u else Str ''unknown_user''))"
  by (simp add: getUsername_def execute_eq split: sum.splits)

lemma no_user_first_cell: "no_user res \<Longrightarrow> \<not> truthy (first_cell (rows res) ''0'')"
  by (auto simp add: no_user_def first_cell_def split: option.splits list.splits)

lemma getUsername_no_user:
  assumes "c (length lg) UserSql = Inr ures" and "no_user ures"
  shows "getUsername c lg = (lg @ [UserSql], Inr (Str ''unknown_user''))"
  using assms(1) no_user_first_cell [OF assms(2)] by (simp add: getUsername_eq Let_def)

lemma main_phase_eq:
  "main_phase w own tbl col mcols sql lg =
     (case db w (length lg) (MainSql (mainSql col sql own tbl) m_params_json) of
        Inl e \<Rightarrow> (lg @ [MainSql (mainSql col sql own tbl) m_params_json], Inl e)
      | Inr res \<Rightarrow>
          (case getUsername (db w) (lg @ [MainSql (mainSql col sql own tbl) m_params_json]) of
             (lg2, Inl e) \<Rightarrow> (lg2, Inl e)
           | (lg2, Inr u) \<Rightarrow> (lg2, rows_documents w u own tbl col mcols 0 (rows_of res) [])))"
  by (simp add: main_phase_def execute_eq rows_of_def split: sum.splits option.splits prod.splits)

lemma load_table_Inr:
  assumes "loadFromType l = TABLE" and "load w l = (lg, Inr docs)"
  shows "\<exists>own col sql lg0 res u.
           owner l = Some own \<and> colname l = Some col
         \<and> catalog_phase (db w) own (loadFrom l) (mdata_cols l) = (lg0, Inr sql)
         \<and> db w (length lg0) (MainSql (mainSql col sql own (loadFrom l)) m_params_json) = Inr res
         \<and> getUsername (db w) (lg0 @ [MainSql (mainSql col sql own (loadFrom l)) m_params_json])
             = (lg, Inr u)
         \<and> rows_documents w u own (loadFrom l) col (mdata_cols l) 0 (rows_of res) [] = Inr docs"
proof -
  have run: "loadFromTable w l = (lg, Inr docs)" using assms by (simp add: load_def)
  obtain own where o: "owner l = Some own"
    using run by (cases "owner l") (simp_all add: loadFromTable_missing)
  obtain col where c: "colname l = Some col"
    using run by (cases "colname l") (simp_all add: loadFromTable_missing)
  have v: "isValidIdentifier own \<and> isValidIdentifier (loadFrom l) \<and> isValidIdentifier col"
    using loadFromTable_invalid [OF o c, of w] run by auto
  then have v': "isValidIdentifier own" "isValidIdentifier (loadFrom l)" "isValidIdentifier col"
    by simp_all
  note unfold = loadFromTable_valid [OF o c v', of w]
  obtain lg0 r where cp: "catalog_phase (db w) own (loadFrom l) (mdata_cols l) = (lg0, r)"
    by (cases "catalog_phase (db w) own (loadFrom l) (mdata_cols l)")
  obtain sql where r: "r = Inr sql"
    using run unfold cp by (cases r) simp_all
  let ?m = "MainSql (mainSql col sql own (loadFrom l)) m_params_json"
  have mp: "main_phase w own (loadFrom l) col (mdata_cols l) sql lg0 = (lg, Inr docs)"
    using run unfold cp r by simp
  obtain res where res: "db w (length lg0) ?m = Inr res"
    using mp by (cases "db w (length lg0) ?m") (simp_all add: main_phase_eq)
  obtain lg2 ru where gu: "getUsername (db w) (lg0 @ [?m]) = (lg2, ru)"
    by (cases "getUsername (db w) (lg0 @ [?m])")
  obtain u where u: "ru = Inr u"
    using mp res gu by (cases ru) (simp_all add: main_phase_eq)
  have fin: "lg2 = lg" "rows_documents w u own (loadFrom l) col (mdata_cols l) 0 (rows_of res) [] = Inr docs"
    using mp res gu u by (simp_all add: main_phase_eq)
  from o c cp r res gu u fin show ?thesis by blast
qed

lemma load_table_runs:
  assumes "loadFromType l = TABLE" and "owner l = Some own" and "colname l = Some col"
    and "isValidIdentifier own" and "isValidIdentifier (loadFrom l)" and "isValidIdentifier col"
    and "catalog_phase (db w) own (loadFrom l) (mdata_cols l) = (lg0, Inr sql)"
    and "db w (length lg0) (MainSql (mainSql col sql own (loadFrom l)) m_params_json) = Inr res"
    and "getUsername (db w) (lg0 @ [MainSql (mainSql col sql own (loadFrom l)) m_params_json])
           = (lg, Inr u)"
    and "\<forall>k<length (rows_of res).
           textual (getprop (rows_of res ! k) ''MDATA'') \<and> clock_ok (id_envs w k)"
  shows "\<exists>docs. load w l = (lg, Inr docs)
           \<and> rows_documents w u own (loadFrom l) col (mdata_cols l) 0 (rows_of res) [] = Inr docs"
proof -
  have "\<forall>k<length (rows_of res).
           textual (getprop (rows_of res ! k) ''MDATA'') \<and> clock_ok (id_envs w (0 + k))"
    using assms(10) by simp
  from rows_documents_runs [OF this]
  obtain docs where docs: "rows_documents w u own (loadFrom l) col (mdata_cols l) 0 (rows_of res) [] = Inr docs"
    by blast
  have "load w l = (lg, Inr docs)"
    using assms(1) loadFromTable_valid [OF assms(2-6), of w] assms(7-9) docs
    by (simp add: load_def main_phase_eq)
  with docs show ?thesis by blast
qed

lemma documents_of_rows:
  assumes "rows_documents w u own tbl col mcols 0 rs [] = Inr docs"
  shows "length docs = length rs
    \<and> (\<forall>k<length docs. row_document w (id_envs w k) u own tbl col mcols (rs ! k) = Inr (docs ! k))"
  using rows_documents_Inr [OF assms] by auto

text \<open>
  Claim C5, as the code has it. When a table-path \<^verbatim>\<open>load()\<close> returns, it returns one
  document per row of the main query, in order. Apart from \<^verbatim>\<open>_oid\<close>, \<^verbatim>\<open>_rowid\<close> and
  the requested extra columns, the metadata of a document holds what the parser makes of
  the row's \<^verbatim>\<open>MDATA\<close> exactly when that is a string starting with
  \<^verbatim>\<open><!DOCTYPE html\<close> or \<^verbatim>\<open><HTML>\<close>, and nothing otherwise; a requested extra column
  (other than one named \<^verbatim>\<open>__proto__\<close>) holds the row's value. For a row whose
  \<^verbatim>\<open>MDATA\<close> is \<^verbatim>\<open>null\<close> or absent the metadata contains only \<^verbatim>\<open>_oid\<close>,
  \<^verbatim>\<open>_rowid\<close> and requested extra columns, it does contain \<^verbatim>\<open>_oid\<close>, \<^verbatim>\<open>_rowid\<close>
  and every requested column not named \<^verbatim>\<open>__proto__\<close>, and it has a \<^verbatim>\<open>title\<close> key
  if and only if \<^verbatim>\<open>title\<close> is one of the requested extra columns.
\<close>

theorem table_row_metadata:
  assumes "loadFromType l = TABLE" and "load w l = (lg, Inr docs)"
  shows "\<exists>n sql res.
           db w n (MainSql sql m_params_json) = Inr res \<and> length docs = length (rows_of res)
         \<and> (\<forall>k<length docs.
               (\<forall>x. x \<notin> set (cols_of (mdata_cols l)) \<and> x \<noteq> ''_oid'' \<and> x \<noteq> ''_rowid''
                  \<longrightarrow> doc_metadata (docs ! k) x
                        = (if html_signature (getprop (rows_of res ! k) ''MDATA'')
                           then parsed_metadata (tokenize w) (getprop (rows_of res ! k) ''MDATA'') x
                           else None))
             \<and> (\<forall>x. x \<in> set (cols_of (mdata_cols l)) \<and> x \<noteq> ''__proto__''
                  \<longrightarrow> doc_metadata (docs ! k) x = Some (getprop (rows_of res ! k) x))
             \<and> (getprop (rows_of res ! k) ''MDATA'' = Null
                  \<or> getprop (rows_of res ! k) ''MDATA'' = Undefined
                \<longrightarrow> dom (doc_metadata (docs ! k))
                        \<subseteq> {''_oid'', ''_rowid''} \<union> set (cols_of (mdata_cols l))
                    \<and> {''_oid'', ''_rowid''} \<union> (set (cols_of (mdata_cols l)) - {''__proto__''})
                        \<subseteq> dom (doc_metadata (docs ! k))
                    \<and> (''title'' \<in> dom (doc_metadata (docs ! k)))
                        = (''title'' \<in> set (cols_of (mdata_cols l)))))"
proof -
  from load_table_Inr [OF assms] obtain own col sql and lg0 :: "statement list" and res u where
    m: "db w (length lg0) (MainSql (mainSql col sql own (loadFrom l)) m_params_json) = Inr res"
    and rd: "rows_documents w u own (loadFrom l) col (mdata_cols l) 0 (rows_of res) [] = Inr docs"
    by blast
  note dr = documents_of_rows [OF rd]
  let ?cols = "set (cols_of (mdata_cols l))"
  have each: "(\<forall>x. x \<notin> ?cols \<and> x \<noteq> ''_oid'' \<and> x \<noteq> ''_rowid''
                  \<longrightarrow> doc_metadata (docs ! k) x
                        = (if html_signature (getprop (rows_of res ! k) ''MDATA'')
                           then parsed_metadata (tokenize w) (getprop (rows_of res ! k) ''MDATA'') x
                           else None))
             \<and> (\<forall>x. x \<in> ?cols \<and> x \<noteq> ''__proto__''
                  \<longrightarrow> doc_metadata (docs ! k) x = Some (getprop (rows_of res ! k) x))
             \<and> (getprop (rows_of res ! k) ''MDATA'' = Null
                  \<or> getprop (rows_of res ! k) ''MDATA'' = Undefined
                \<longrightarrow> dom (doc_metadata (docs ! k)) \<subseteq> {''_oid'', ''_rowid''} \<union> ?cols
                    \<and> {''_oid'', ''_rowid''} \<union> (?cols - {''__proto__''})
                        \<subseteq> dom (doc_metadata (docs ! k))
                    \<and> (''title'' \<in> dom (doc_metadata (docs ! k))) = (''title'' \<in> ?cols))"
    if k: "k < length docs" for k
  proof -
    let ?row = "rows_of res ! k"
    let ?base = "if html_signature (getprop ?row ''MDATA'')
                 then parsed_metadata (tokenize w) (getprop ?row ''MDATA'') else Map.empty"
    have "row_document w (id_envs w k) u own (loadFrom l) col (mdata_cols l) ?row = Inr (docs ! k)"
      using dr k by blast
    from row_document_Inr [OF this] obtain oid where
      md: "doc_metadata (docs ! k)
             = with_cols (mdata_cols l) ?row
                 (?base(''_oid'' \<mapsto> Str oid, ''_rowid'' \<mapsto> getprop ?row ''ROWID''))"
      by blast
    have other: "doc_metadata (docs ! k) x = ?base x"
      if "x \<notin> ?cols \<and> x \<noteq> ''_oid'' \<and> x \<noteq> ''_rowid''" for x
      unfolding md using that by (simp add: with_cols_other)
    have listed: "doc_metadata (docs ! k) x = Some (getprop ?row x)"
      if "x \<in> ?cols \<and> x \<noteq> ''__proto__''" for x
      unfolding md using that by (simp add: with_cols_listed)
    have reserved: "''_oid'' \<in> dom (doc_metadata (docs ! k))"
        "''_rowid'' \<in> dom (doc_metadata (docs ! k))"
    proof -
      show "''_oid'' \<in> dom (doc_metadata (docs ! k))"
      proof (cases "''_oid'' \<in> ?cols")
        case True
        then show ?thesis using listed [of "''_oid''"] by (simp add: dom_def)
      next
        case False
        then show ?thesis unfolding md by (simp add: with_cols_other dom_def)
      qed
      show "''_rowid'' \<in> dom (doc_metadata (docs ! k))"
      proof (cases "''_rowid'' \<in> ?cols")
        case True
        then show ?thesis using listed [of "''_rowid''"] by (simp add: dom_def)
      next
        case False
        then show ?thesis unfolding md by (simp add: with_cols_other dom_def)
      qed
    qed
    have absent: "dom (doc_metadata (docs ! k)) \<subseteq> {''_oid'', ''_rowid''} \<union> ?cols
                    \<and> {''_oid'', ''_rowid''} \<union> (?cols - {''__proto__''})
                        \<subseteq> dom (doc_metadata (docs ! k))
                    \<and> (''title'' \<in> dom (doc_metadata (docs ! k))) = (''title'' \<in> ?cols)"
      if "getprop ?row ''MDATA'' = Null \<or> getprop ?row ''MDATA'' = Undefined"
    proof -
      from that have nosig: "\<not> html_signature (getprop ?row ''MDATA'')"
        by (auto simp add: html_signature_def)
      have sub: "dom (doc_metadata (docs ! k)) \<subseteq> {''_oid'', ''_rowid''} \<union> ?cols"
        unfolding md
        using dom_with_cols [of "mdata_cols l" ?row
            "?base(''_oid'' \<mapsto> Str oid, ''_rowid'' \<mapsto> getprop ?row ''ROWID'')"] nosig
        by auto
      have sup: "{''_oid'', ''_rowid''} \<union> (?cols - {''__proto__''})
                        \<subseteq> dom (doc_metadata (docs ! k))"
      proof
        fix x assume "x \<in> {''_oid'', ''_rowid''} \<union> (?cols - {''__proto__''})"
        then consider "x = ''_oid''" | "x = ''_rowid''" | "x \<in> ?cols \<and> x \<noteq> ''__proto__''"
          by auto
        then show "x \<in> dom (doc_metadata (docs ! k))"
        proof cases
          case 1
          then show ?thesis using reserved(1) by simp
        next
          case 2
          then show ?thesis using reserved(2) by simp
        next
          case 3
          then show ?thesis using listed [of x] by (simp add: dom_def)
        qed
      qed
      have title: "(''title'' \<in> dom (doc_metadata (docs ! k))) = (''title'' \<in> ?cols)"
      proof
        assume "''title'' \<in> dom (doc_metadata (docs ! k))"
        with sub show "''title'' \<in> ?cols" by auto
      next
        assume "''title'' \<in> ?cols"
        then have "''title'' \<in> {''_oid'', ''_rowid''} \<union> (?cols - {''__proto__''})" by simp
        with sup show "''title'' \<in> dom (doc_metadata (docs ! k))" by blast
      qed
      from sub sup title show ?thesis by (intro conjI)
    qed
    show ?thesis
    proof (intro conjI allI impI)
      fix x assume "x \<notin> ?cols \<and> x \<noteq> ''_oid'' \<and> x \<noteq> ''_rowid''"
      from other [OF this]
      show "doc_metadata (docs ! k) x
                        = (if html_signature (getprop (rows_of res ! k) ''MDATA'')
                           then parsed_metadata (tokenize w) (getprop (rows_of res ! k) ''MDATA'') x
                           else None)"
        by simp
    next
      fix x assume "x \<in> ?cols \<and> x \<noteq> ''__proto__''"
      from listed [OF this] show "doc_metadata (docs ! k) x = Some (getprop (rows_of res ! k) x)" .
    next
      assume a: "getprop ?row ''MDATA'' = Null \<or> getprop ?row ''MDATA'' = Undefined"
      from absent [OF a] show "dom (doc_metadata (docs ! k)) \<subseteq> {''_oid'', ''_rowid''} \<union> ?cols"
        by (rule conjunct1)
      from absent [OF a] show "{''_oid'', ''_rowid''} \<union> (?cols - {''__proto__''})
                        \<subseteq> dom (doc_metadata (docs ! k))"
        by (rule conjunct2 [THEN conjunct1])
      from absent [OF a] show "(''title'' \<in> dom (doc_metadata (docs ! k))) = (''title'' \<in> ?cols)"
        by (rule conjunct2 [THEN conjunct2])
    qed
  qed
  show ?thesis
    apply (rule exI [of _ "length lg0"])
    apply (rule exI [of _ "mainSql col sql own (loadFrom l)"])
    apply (rule exI [of _ res])
    apply (intro conjI)
      apply (rule m)
     apply (rule dr [THEN conjunct1])
    apply (rule allI)
    apply (rule impI)
    apply (rule each)
    apply assumption
    done
qed

text \<open>
  Claim C9, as the code has it. In every document a table-path \<^verbatim>\<open>load()\<close> returns,
  \<^verbatim>\<open>metadata._oid\<close> is the object id generated for the row, provided no requested extra
  column is itself named \<^verbatim>\<open>_oid\<close>, and \<^verbatim>\<open>metadata._rowid\<close> is the row identifier,
  provided no requested extra column is named \<^verbatim>\<open>_rowid\<close>; this holds whatever keys the
  parsed HTML metadata contains, since the reserved keys are written after parsing.
\<close>

theorem reserved_keys_written_last:
  assumes "loadFromType l = TABLE" and "load w l = (lg, Inr docs)"
  shows "\<exists>n sql res u own col.
           db w n (MainSql sql m_params_json) = Inr res \<and> length docs = length (rows_of res)
         \<and> owner l = Some own \<and> colname l = Some col
         \<and> (\<forall>k<length docs. \<exists>oid.
               generateObjectId (sha256 w) (id_envs w k)
                 (Some (oid_seed u own (loadFrom l) col (getprop (rows_of res ! k) ''ROWID'')))
                 = Inr oid
             \<and> (''_oid'' \<notin> set (cols_of (mdata_cols l))
                  \<longrightarrow> doc_metadata (docs ! k) ''_oid'' = Some (Str oid))
             \<and> (''_rowid'' \<notin> set (cols_of (mdata_cols l))
                  \<longrightarrow> doc_metadata (docs ! k) ''_rowid''
                        = Some (getprop (rows_of res ! k) ''ROWID'')))"
proof -
  from load_table_Inr [OF assms] obtain own col sql and lg0 :: "statement list" and res u where
    oc: "owner l = Some own" "colname l = Some col"
    and m: "db w (length lg0) (MainSql (mainSql col sql own (loadFrom l)) m_params_json) = Inr res"
    and rd: "rows_documents w u own (loadFrom l) col (mdata_cols l) 0 (rows_of res) [] = Inr docs"
    by blast
  note dr = documents_of_rows [OF rd]
  have each: "\<exists>oid.
               generateObjectId (sha256 w) (id_envs w k)
                 (Some (oid_seed u own (loadFrom l) col (getprop (rows_of res ! k) ''ROWID'')))
                 = Inr oid
             \<and> (''_oid'' \<notin> set (cols_of (mdata_cols l))
                  \<longrightarrow> doc_metadata (docs ! k) ''_oid'' = Some (Str oid))
             \<and> (''_rowid'' \<notin> set (cols_of (mdata_cols l))
                  \<longrightarrow> doc_metadata (docs ! k) ''_rowid''
                        = Some (getprop (rows_of res ! k) ''ROWID''))"
    if k: "k < length docs" for k
  proof -
    let ?row = "rows_of res ! k"
    have "row_document w (id_envs w k) u own (loadFrom l) col (mdata_cols l) ?row = Inr (docs ! k)"
      using dr k by blast
    from row_document_Inr [OF this] obtain oid where
      g: "generateObjectId (sha256 w) (id_envs w k)
                 (Some (oid_seed u own (loadFrom l) col (getprop ?row ''ROWID''))) = Inr oid"
      and md: "doc_metadata (docs ! k)
                  = with_cols (mdata_cols l) ?row
                      ((if html_signature (getprop ?row ''MDATA'')
                        then parsed_metadata (tokenize w) (getprop ?row ''MDATA'')
                        else Map.empty)
                       (''_oid'' \<mapsto> Str oid, ''_rowid'' \<mapsto> getprop ?row ''ROWID''))"
      by blast
    have a: "''_oid'' \<notin> set (cols_of (mdata_cols l))
                  \<longrightarrow> doc_metadata (docs ! k) ''_oid'' = Some (Str oid)"
      unfolding md by (simp add: with_cols_other)
    have b: "''_rowid'' \<notin> set (cols_of (mdata_cols l))
                  \<longrightarrow> doc_metadata (docs ! k) ''_rowid'' = Some (getprop ?row ''ROWID'')"
      unfolding md by (simp add: with_cols_other)
    from g a b show ?thesis by blast
  qed
  show ?thesis
    apply (rule exI [of _ "length lg0"])
    apply (rule exI [of _ "mainSql col sql own (loadFrom l)"])
    apply (rule exI [of _ res])
    apply (rule exI [of _ u])
    apply (rule exI [of _ own])
    apply (rule exI [of _ col])
    apply (intro conjI)
        apply (rule m)
       apply (rule dr [THEN conjunct1])
      apply (rule oc(1))
     apply (rule oc(2))
    apply (rule allI)
    apply (rule impI)
    apply (rule each)
    apply assumption
    done
qed

text \<open>
  Claim C10. If the session-identity query returns no rows or a null value,
  \<^verbatim>\<open>getUsername\<close> yields \<^verbatim>\<open>unknown_user\<close>. A table-path \<^verbatim>\<open>load()\<close> whose
  configuration is valid, whose catalog phase and main query succeeded, whose rows carry a
  textual or absent \<^verbatim>\<open>MDATA\<close> and whose clock fits the id's timestamp then returns a
  document for every row, and the id of each is generated from the seed that starts with
  \<^verbatim>\<open>unknown_user\<close>.
\<close>

theorem unknown_user_fallback:
  "(c (length lg) UserSql = Inr ures \<and> no_user ures
      \<longrightarrow> getUsername c lg = (lg @ [UserSql], Inr (Str ''unknown_user'')))
   \<and> (loadFromType l = TABLE \<and> owner l = Some own \<and> colname l = Some col
       \<and> isValidIdentifier own \<and> isValidIdentifier (loadFrom l) \<and> isValidIdentifier col
       \<and> catalog_phase (db w) own (loadFrom l) (mdata_cols l) = (lg0, Inr sql)
       \<and> db w (length lg0) (MainSql (mainSql col sql own (loadFrom l)) m_params_json) = Inr res
       \<and> db w (Suc (length lg0)) UserSql = Inr ures \<and> no_user ures
       \<and> (\<forall>k<length (rows_of res).
             textual (getprop (rows_of res ! k) ''MDATA'') \<and> clock_ok (id_envs w k))
      \<longrightarrow> (\<exists>docs.
             load w l
               = (lg0 @ [MainSql (mainSql col sql own (loadFrom l)) m_params_json, UserSql],
                  Inr docs)
           \<and> length docs = length (rows_of res)
           \<and> (\<forall>k<length docs. \<exists>oid.
                 generateObjectId (sha256 w) (id_envs w k)
                   (Some (''unknown_user$'' @ own @ ''$'' @ loadFrom l @ ''$'' @ col @ ''$''
                          @ toString (getprop (rows_of res ! k) ''ROWID''))) = Inr oid
               \<and> (''_oid'' \<notin> set (cols_of (mdata_cols l))
                    \<longrightarrow> doc_metadata (docs ! k) ''_oid'' = Some (Str oid)))))"
proof (intro conjI impI)
  assume "c (length lg) UserSql = Inr ures \<and> no_user ures"
  then show "getUsername c lg = (lg @ [UserSql], Inr (Str ''unknown_user''))"
    using getUsername_no_user by blast
next
  let ?m = "MainSql (mainSql col sql own (loadFrom l)) m_params_json"
  assume a: "loadFromType l = TABLE \<and> owner l = Some own \<and> colname l = Some col
       \<and> isValidIdentifier own \<and> isValidIdentifier (loadFrom l) \<and> isValidIdentifier col
       \<and> catalog_phase (db w) own (loadFrom l) (mdata_cols l) = (lg0, Inr sql)
       \<and> db w (length lg0) ?m = Inr res
       \<and> db w (Suc (length lg0)) UserSql = Inr ures \<and> no_user ures
       \<and> (\<forall>k<length (rows_of res).
             textual (getprop (rows_of res ! k) ''MDATA'') \<and> clock_ok (id_envs w k))"
  then have h: "loadFromType l = TABLE" "owner l = Some own" "colname l = Some col"
      "isValidIdentifier own" "isValidIdentifier (loadFrom l)" "isValidIdentifier col"
      "catalog_phase (db w) own (loadFrom l) (mdata_cols l) = (lg0, Inr sql)"
      "db w (length lg0) ?m = Inr res"
    and us: "db w (Suc (length lg0)) UserSql = Inr ures" "no_user ures"
    and ok: "\<forall>k<length (rows_of res).
             textual (getprop (rows_of res ! k) ''MDATA'') \<and> clock_ok (id_envs w k)"
    by blast+
  have gu: "getUsername (db w) (lg0 @ [?m]) = ((lg0 @ [?m]) @ [UserSql], Inr (Str ''unknown_user''))"
    by (rule getUsername_no_user [of _ _ ures]) (use us in simp_all)
  then have gu': "getUsername (db w) (lg0 @ [?m]) = (lg0 @ [?m, UserSql], Inr (Str ''unknown_user''))"
    by simp
  from load_table_runs [OF h gu' ok] obtain docs where
    ld: "load w l = (lg0 @ [?m, UserSql], Inr docs)"
    and rd: "rows_documents w (Str ''unknown_user'') own (loadFrom l) col (mdata_cols l) 0 (rows_of res) []
              = Inr docs"
    by blast
  note dr = documents_of_rows [OF rd]
  have each: "\<exists>oid.
                 generateObjectId (sha256 w) (id_envs w k)
                   (Some (''unknown_user$'' @ own @ ''$'' @ loadFrom l @ ''$'' @ col @ ''$''
                          @ toString (getprop (rows_of res ! k) ''ROWID''))) = Inr oid
               \<and> (''_oid'' \<notin> set (cols_of (mdata_cols l))
                    \<longrightarrow> doc_metadata (docs ! k) ''_oid'' = Some (Str oid))"
    if k: "k < length docs" for k
  proof -
    let ?row = "rows_of res ! k"
    have "row_document w (id_envs w k) (Str ''unknown_user'') own (loadFrom l) col (mdata_cols l) ?row
            = Inr (docs ! k)"
      using dr k by blast
    from row_document_Inr [OF this] obtain oid where
      g: "generateObjectId (sha256 w) (id_envs w k)
                 (Some (oid_seed (Str ''unknown_user'') own (loadFrom l) col (getprop ?row ''ROWID'')))
            = Inr oid"
      and md: "doc_metadata (docs ! k)
                  = with_cols (mdata_cols l) ?row
                      ((if html_signature (getprop ?row ''MDATA'')
                        then parsed_metadata (tokenize w) (getprop ?row ''MDATA'')
                        else Map.empty)
                       (''_oid'' \<mapsto> Str oid, ''_rowid'' \<mapsto> getprop ?row ''ROWID''))"
      by blast
    have seed: "oid_seed (Str ''unknown_user'') own (loadFrom l) col (getprop ?row ''ROWID'')
        = ''unknown_user$'' @ own @ ''$'' @ loadFrom l @ ''$'' @ col @ ''$''
                          @ toString (getprop ?row ''ROWID'')"
      by (simp add: oid_seed_def)
    have a: "''_oid'' \<notin> set (cols_of (mdata_cols l))
                  \<longrightarrow> doc_metadata (docs ! k) ''_oid'' = Some (Str oid)"
      unfolding md by (simp add: with_cols_other)
    from g [unfolded seed] a show ?thesis by blast
  qed
  show "\<exists>docs.
             load w l = (lg0 @ [?m, UserSql], Inr docs)
           \<and> length docs = length (rows_of res)
           \<and> (\<forall>k<length docs. \<exists>oid.
                 generateObjectId (sha256 w) (id_envs w k)
                   (Some (''unknown_user$'' @ own @ ''$'' @ loadFrom l @ ''$'' @ col @ ''$''
                          @ toString (getprop (rows_of res ! k) ''ROWID''))) = Inr oid
               \<and> (''_oid'' \<notin> set (cols_of (mdata_cols l))
                    \<longrightarrow> doc_metadata (docs ! k) ''_oid'' = Some (Str oid)))"
    apply (rule exI [of _ docs])
    apply (intro conjI)
      apply (rule ld)
     apply (rule dr [THEN conjunct1])
    apply (rule allI)
    apply (rule impI)
    apply (rule each)
    apply assumption
    done
qed

lemma example_oid:
  "s \<noteq> [] \<Longrightarrow>
     generateObjectId example_hash example_env (Some s) = Inr ''6553f100abcdef012345678901020304''"
  by (simp add: example_env_def example_hash_def generateObjectId_def effective_seed_def
        writeUInt32BE_def padStart_def toHex_def hex_byte_def hex_digit_def)

lemma example_clock: "clock_ok example_env"
  by (simp add: clock_ok_def example_env_def)

lemma all_two: "P 0 \<Longrightarrow> P (Suc 0) \<Longrightarrow> \<forall>k<length [a, b]. P k"
proof (intro allI impI)
  fix k assume p: "P 0" "P (Suc 0)" and "k < length [a, b]"
  then have "k = 0 \<or> k = Suc 0" by auto
  with p show "P k" by auto
qed

lemma example_mdata:
  "getprop example_row_plain ''MDATA'' = Null"
  "getprop example_row_html ''MDATA'' = Str ''<HTML><title>Document 1</title></HTML>''"
  "getprop example_row_plain ''ROWID'' = Str ''ROWID3''"
  "getprop example_row_html ''ROWID'' = Str ''ROWID1''"
  "getprop example_row_plain ''_oid'' = Num 7"
  "getprop example_row_plain ''ID'' = Num 3"
  "getprop example_row_plain ''title'' = Str ''From the column''"
  by (simp_all add: getprop_def example_row_plain_def example_row_html_def)

lemma example_world_parts:
  "tokenize example_world = example_tokenize" "sha256 example_world = example_hash"
  "id_envs example_world k = example_env"
  by (simp_all add: example_world_def)

lemma example_rows_ok:
  "\<forall>k<length [example_row_plain, example_row_html].
     textual (getprop ([example_row_plain, example_row_html] ! k) ''MDATA'')
     \<and> clock_ok (id_envs (example_world\<lparr>db := d\<rparr>) k)"
  by (rule all_two) (simp_all add: example_mdata textual_def example_clock example_world_def)

lemma example_parsed:
  "metadata (parse example_tokenize s new_parser) = [''title'' \<mapsto> ''Document 1'', ''_oid'' \<mapsto> ''spoofed'']"
  by (simp add: parse_def feed_def example_tokenize_def handleStartTag_def handleData_def
        scan_attrs_def new_parser_def set_string_def)

lemma example_username:
  "getUsername example_db lg = (lg @ [UserSql], Inr (Str ''TEST_USER''))"
  by (simp add: getUsername_eq first_cell_def getprop_def)

lemma example_catalog_phase_oid:
  "catalog_phase example_db ''TEST_USER'' ''test_table'' (Some [''_oid''])
     = ([ColSql ''TEST_USER'' ''TEST_TABLE''], Inr '', t.ROWID AS ROWID, t._oid'')"
  by (simp add: catalog_phase_def execute_eq upper_examples example_colTypes check_col_def
        valid_examples pget_def supported_types_def del: isValidIdentifier.simps)

lemma example_catalog_phase_title:
  "catalog_phase example_db ''TEST_USER'' ''test_table'' (Some [''title''])
     = ([ColSql ''TEST_USER'' ''TEST_TABLE''], Inr '', t.ROWID AS ROWID, t.title'')"
  by (simp add: catalog_phase_def execute_eq upper_examples example_colTypes check_col_def
        valid_examples pget_def supported_types_def del: isValidIdentifier.simps)

lemma example_load:
  assumes "mdata_cols l = Some cols" and "loadFrom l = ''test_table''"
    and "loadFromType l = TABLE" and "owner l = Some ''TEST_USER''"
    and "colname l = Some ''CONTENT_COLUMN''"
    and "catalog_phase example_db ''TEST_USER'' ''test_table'' (Some cols)
           = ([ColSql ''TEST_USER'' ''TEST_TABLE''], Inr sql)"
  shows "\<exists>docs. load example_world l
           = ([ColSql ''TEST_USER'' ''TEST_TABLE'',
               MainSql (mainSql ''CONTENT_COLUMN'' sql ''TEST_USER'' ''test_table'') m_params_json,
               UserSql], Inr docs)
         \<and> rows_documents example_world (Str ''TEST_USER'') ''TEST_USER'' ''test_table''
              ''CONTENT_COLUMN'' (Some cols) 0 [example_row_plain, example_row_html] [] = Inr docs"
proof -
  let ?res = "\<lparr> rows = Some [example_row_plain, example_row_html], outBinds = None \<rparr>"
  let ?m = "MainSql (mainSql ''CONTENT_COLUMN'' sql ''TEST_USER'' ''test_table'') m_params_json"
  have db: "db example_world = example_db" by (simp add: example_world_def)
  have cp: "catalog_phase (db example_world) ''TEST_USER'' (loadFrom l) (mdata_cols l)
           = ([ColSql ''TEST_USER'' ''TEST_TABLE''], Inr sql)"
    using assms by (simp add: db)
  have m: "db example_world (length [ColSql ''TEST_USER'' ''TEST_TABLE''])
             (MainSql (mainSql ''CONTENT_COLUMN'' sql ''TEST_USER'' (loadFrom l)) m_params_json) = Inr ?res"
    by (simp add: db)
  have gu: "getUsername (db example_world)
              ([ColSql ''TEST_USER'' ''TEST_TABLE'']
               @ [MainSql (mainSql ''CONTENT_COLUMN'' sql ''TEST_USER'' (loadFrom l)) m_params_json])
           = ([ColSql ''TEST_USER'' ''TEST_TABLE'', ?m, UserSql], Inr (Str ''TEST_USER''))"
    using assms(2) by (simp add: db example_username)
  have ok: "\<forall>k<length (rows_of ?res).
           textual (getprop (rows_of ?res ! k) ''MDATA'') \<and> clock_ok (id_envs example_world k)"
    using example_rows_ok [of example_db] by (simp add: rows_of_def example_world_def)
  have v: "isValidIdentifier ''TEST_USER''" "isValidIdentifier (loadFrom l)"
      "isValidIdentifier ''CONTENT_COLUMN''"
    using assms(2) valid_examples by (simp_all del: isValidIdentifier.simps)
  from load_table_runs [OF assms(3,4,5) v cp m gu ok] assms(1,2)
  show ?thesis by (simp add: rows_of_def)
qed

lemma example_signature:
  "html_signature (Str ''<HTML><title>Document 1</title></HTML>'')" "\<not> html_signature Null"
  by (simp_all add: html_signature_def startsWith_def)

lemma example_main_rows:
  "db example_world n (MainSql sql params) = Inr res \<Longrightarrow>
     rows_of res = [example_row_plain, example_row_html]"
  by (auto simp add: example_world_def rows_of_def)

text \<open>The sample load: the first row has no HTML-flavoured extraction, the second has.\<close>

theorem table_row_metadata_witness:
  "loadFromType example_loader = TABLE
   \<and> load example_world example_loader = (fst (load example_world example_loader), Inr example_docs)
   \<and> length example_docs = 2
   \<and> getprop example_row_plain ''MDATA'' = Null
   \<and> dom (doc_metadata (example_docs ! 0)) \<subseteq> {''_oid'', ''_rowid''} \<union> set [''ID'']
   \<and> ''title'' \<notin> dom (doc_metadata (example_docs ! 0))
   \<and> doc_metadata (example_docs ! 0) ''ID'' = Some (Num 3)
   \<and> doc_metadata (example_docs ! 1) ''title'' = Some (Str ''Document 1'')"
proof -
  have tab: "loadFromType example_loader = TABLE" by (simp add: example_parts)
  obtain lg docs where ld: "load example_world example_loader = (lg, Inr docs)"
    using example_load [OF example_parts(5,4,1,2,3) example_catalog_phase] by blast
  have ed: "example_docs = docs" by (simp add: example_docs_def docs_of_def ld)
  let ?cols = "set (cols_of (mdata_cols example_loader))"
  from table_row_metadata [OF tab ld] obtain n sql res where
    c: "db example_world n (MainSql sql m_params_json) = Inr res
      \<and> length docs = length (rows_of res)
      \<and> (\<forall>k<length docs.
               (\<forall>x. x \<notin> ?cols \<and> x \<noteq> ''_oid'' \<and> x \<noteq> ''_rowid''
                  \<longrightarrow> doc_metadata (docs ! k) x
                        = (if html_signature (getprop (rows_of res ! k) ''MDATA'')
                           then parsed_metadata (tokenize example_world)
                                  (getprop (rows_of res ! k) ''MDATA'') x
                           else None))
             \<and> (\<forall>x. x \<in> ?cols \<and> x \<noteq> ''__proto__''
                  \<longrightarrow> doc_metadata (docs ! k) x = Some (getprop (rows_of res ! k) x))
             \<and> (getprop (rows_of res ! k) ''MDATA'' = Null
                  \<or> getprop (rows_of res ! k) ''MDATA'' = Undefined
                \<longrightarrow> dom (doc_metadata (docs ! k)) \<subseteq> {''_oid'', ''_rowid''} \<union> ?cols
                    \<and> {''_oid'', ''_rowid''} \<union> (?cols - {''__proto__''})
                        \<subseteq> dom (doc_metadata (docs ! k))
                    \<and> (''title'' \<in> dom (doc_metadata (docs ! k))) = (''title'' \<in> ?cols)))"
    by (elim exE) (rule that)
  note m = c [THEN conjunct1]
  note len = c [THEN conjunct2, THEN conjunct1]
  note all = c [THEN conjunct2, THEN conjunct2]
  note rs = example_main_rows [OF m]
  have l2: "length docs = 2" using len rs by simp
  have k0: "0 < length docs" and k1: "1 < length docs" using l2 by simp_all
  have row0: "rows_of res ! 0 = example_row_plain" and row1: "rows_of res ! 1 = example_row_html"
    using rs by simp_all
  have cols: "?cols = set [''ID'']" by (simp add: example_parts cols_of_def)
  note at0 = all [rule_format, OF k0, unfolded row0]
  note at1 = all [rule_format, OF k1, unfolded row1]
  have null0: "getprop example_row_plain ''MDATA'' = Null
                 \<or> getprop example_row_plain ''MDATA'' = Undefined"
    by (simp add: example_mdata)
  note keys0 = at0 [THEN conjunct2, THEN conjunct2, THEN mp, OF null0]
  have d0: "dom (doc_metadata (docs ! 0)) \<subseteq> {''_oid'', ''_rowid''} \<union> set [''ID'']"
    using keys0 [THEN conjunct1] unfolding cols .
  have "(''title'' \<in> dom (doc_metadata (docs ! 0))) = (''title'' \<in> set [''ID''])"
    using keys0 [THEN conjunct2, THEN conjunct2] unfolding cols .
  then have t0: "''title'' \<notin> dom (doc_metadata (docs ! 0))" by simp
  have "''ID'' \<in> ?cols \<and> ''ID'' \<noteq> ''__proto__''" unfolding cols by simp
  from at0 [THEN conjunct2, THEN conjunct1, rule_format, OF this]
  have i0: "doc_metadata (docs ! 0) ''ID'' = Some (Num 3)"
    by (simp add: example_mdata)
  have "''title'' \<notin> ?cols \<and> ''title'' \<noteq> ''_oid'' \<and> ''title'' \<noteq> ''_rowid''"
    unfolding cols by simp
  from at1 [THEN conjunct1, rule_format, OF this]
  have t1: "doc_metadata (docs ! 1) ''title'' = Some (Str ''Document 1'')"
    by (simp add: example_mdata example_signature example_world_parts parsed_metadata_def
          example_parsed)
  have f: "fst (load example_world example_loader) = lg" by (simp add: ld)
  show ?thesis
    unfolding ed f
    by (intro conjI) (rule tab ld l2 example_mdata(1) d0 t0 i0 t1)+
qed

text \<open>
  Claim C5 as the spec words it rules out a \<^verbatim>\<open>title\<close> key for a row without an
  HTML-flavoured extraction. When \<^verbatim>\<open>title\<close> is itself a requested extra column, the
  column's value is copied under that key.
\<close>

theorem requested_title_column_counterexample:
  "getprop example_row_plain ''MDATA'' = Null
   \<and> length example_docs_title_col = 2
   \<and> doc_metadata (example_docs_title_col ! 0) ''title'' = Some (Str ''From the column'')"
proof -
  let ?l = "example_loader\<lparr>mdata_cols := Some [''title'']\<rparr>"
  have parts: "mdata_cols ?l = Some [''title'']" "loadFrom ?l = ''test_table''"
    "loadFromType ?l = TABLE" "owner ?l = Some ''TEST_USER''" "colname ?l = Some ''CONTENT_COLUMN''"
    by (simp_all add: example_parts)
  from example_load [OF parts example_catalog_phase_title] obtain lg docs where
    c: "load example_world ?l = (lg, Inr docs)
      \<and> rows_documents example_world (Str ''TEST_USER'') ''TEST_USER'' ''test_table''
              ''CONTENT_COLUMN'' (Some [''title'']) 0 [example_row_plain, example_row_html] [] = Inr docs"
    by blast
  note ld = c [THEN conjunct1]
  note rd = c [THEN conjunct2]
  have ed: "example_docs_title_col = docs" by (simp add: example_docs_title_col_def docs_of_def ld)
  note dr = documents_of_rows [OF rd]
  have l2: "length docs = 2" using dr [THEN conjunct1] by simp
  then have k0: "0 < length docs" by simp
  have "row_document example_world (id_envs example_world 0) (Str ''TEST_USER'') ''TEST_USER''
       ''test_table'' ''CONTENT_COLUMN'' (Some [''title'']) ([example_row_plain, example_row_html] ! 0)
         = Inr (docs ! 0)"
    using dr [THEN conjunct2, rule_format, OF k0] .
  then have "row_document example_world (id_envs example_world 0) (Str ''TEST_USER'') ''TEST_USER''
       ''test_table'' ''CONTENT_COLUMN'' (Some [''title'']) example_row_plain = Inr (docs ! 0)"
    by simp
  from row_document_Inr [OF this] obtain oid where
    e: "generateObjectId (sha256 example_world) (id_envs example_world 0)
          (Some (oid_seed (Str ''TEST_USER'') ''TEST_USER'' ''test_table'' ''CONTENT_COLUMN''
                   (getprop example_row_plain ''ROWID''))) = Inr oid
      \<and> textual (getprop example_row_plain ''MDATA'')
      \<and> doc_metadata (docs ! 0)
       = with_cols (Some [''title'']) example_row_plain
           ((if html_signature (getprop example_row_plain ''MDATA'')
             then parsed_metadata (tokenize example_world) (getprop example_row_plain ''MDATA'')
             else Map.empty)
            (''_oid'' \<mapsto> Str oid, ''_rowid'' \<mapsto> getprop example_row_plain ''ROWID''))"
    by (elim exE) (rule that)
  have t: "doc_metadata (docs ! 0) ''title'' = Some (Str ''From the column'')"
    unfolding e [THEN conjunct2, THEN conjunct2]
    by (simp add: with_cols_listed cols_of_def example_mdata)
  show ?thesis
    unfolding ed
    by (intro conjI) (rule example_mdata(1) l2 t)+
qed

text \<open>The sample load: the HTML of the second row has a \<^verbatim>\<open>meta\<close> tag named
  \<^verbatim>\<open>_oid\<close>, and the document carries the generated id.\<close>

theorem reserved_keys_written_last_witness:
  "loadFromType example_loader = TABLE
   \<and> load example_world example_loader = (fst (load example_world example_loader), Inr example_docs)
   \<and> length example_docs = 2
   \<and> metadata (parse (tokenize example_world) ''<HTML><title>Document 1</title></HTML>'' new_parser)
        ''_oid'' = Some ''spoofed''
   \<and> doc_metadata (example_docs ! 1) ''_oid'' = Some (Str ''6553f100abcdef012345678901020304'')
   \<and> doc_metadata (example_docs ! 1) ''_rowid'' = Some (Str ''ROWID1'')"
proof -
  have tab: "loadFromType example_loader = TABLE" by (simp add: example_parts)
  obtain lg docs where ld: "load example_world example_loader = (lg, Inr docs)"
    using example_load [OF example_parts(5,4,1,2,3) example_catalog_phase] by blast
  have ed: "example_docs = docs" by (simp add: example_docs_def docs_of_def ld)
  from reserved_keys_written_last [OF tab ld] obtain n sql res u own col where
    c: "db example_world n (MainSql sql m_params_json) = Inr res
      \<and> length docs = length (rows_of res)
      \<and> owner example_loader = Some own \<and> colname example_loader = Some col
      \<and> (\<forall>k<length docs. \<exists>oid.
               generateObjectId (sha256 example_world) (id_envs example_world k)
                 (Some (oid_seed u own (loadFrom example_loader) col (getprop (rows_of res ! k) ''ROWID'')))
                 = Inr oid
             \<and> (''_oid'' \<notin> set (cols_of (mdata_cols example_loader))
                  \<longrightarrow> doc_metadata (docs ! k) ''_oid'' = Some (Str oid))
             \<and> (''_rowid'' \<notin> set (cols_of (mdata_cols example_loader))
                  \<longrightarrow> doc_metadata (docs ! k) ''_rowid''
                        = Some (getprop (rows_of res ! k) ''ROWID'')))"
    by (elim exE) (rule that)
  note m = c [THEN conjunct1]
  note len = c [THEN conjunct2, THEN conjunct1]
  note all = c [THEN conjunct2, THEN conjunct2, THEN conjunct2, THEN conjunct2]
  note rs = example_main_rows [OF m]
  have l2: "length docs = 2" using len rs by simp
  then have k1: "1 < length docs" by simp
  have row1: "rows_of res ! 1 = example_row_html" using rs by simp
  have free: "''_oid'' \<notin> set (cols_of (mdata_cols example_loader))"
    "''_rowid'' \<notin> set (cols_of (mdata_cols example_loader))"
    by (simp_all add: example_parts cols_of_def)
  from all [rule_format, OF k1] obtain oid where
    e: "generateObjectId (sha256 example_world) (id_envs example_world 1)
          (Some (oid_seed u own (loadFrom example_loader) col (getprop (rows_of res ! 1) ''ROWID'')))
          = Inr oid
        \<and> (''_oid'' \<notin> set (cols_of (mdata_cols example_loader))
                  \<longrightarrow> doc_metadata (docs ! 1) ''_oid'' = Some (Str oid))
        \<and> (''_rowid'' \<notin> set (cols_of (mdata_cols example_loader))
                  \<longrightarrow> doc_metadata (docs ! 1) ''_rowid''
                        = Some (getprop (rows_of res ! 1) ''ROWID''))"
    by (elim exE) (rule that)
  have g: "generateObjectId example_hash example_env
          (Some (oid_seed u own (loadFrom example_loader) col (getprop (rows_of res ! 1) ''ROWID'')))
          = Inr oid"
    using e [THEN conjunct1] by (simp add: example_world_parts)
  have o: "doc_metadata (docs ! 1) ''_oid'' = Some (Str oid)"
    using e [THEN conjunct2, THEN conjunct1] free(1) by (rule mp)
  have r: "doc_metadata (docs ! 1) ''_rowid'' = Some (getprop (rows_of res ! 1) ''ROWID'')"
    using e [THEN conjunct2, THEN conjunct2] free(2) by (rule mp)
  have "oid_seed u own (loadFrom example_loader) col (getprop (rows_of res ! 1) ''ROWID'') \<noteq> []"
    by (simp add: oid_seed_def)
  from example_oid [OF this] g have oid: "oid = ''6553f100abcdef012345678901020304''" by simp
  have o': "doc_metadata (docs ! 1) ''_oid'' = Some (Str ''6553f100abcdef012345678901020304'')"
    using o unfolding oid .
  have r': "doc_metadata (docs ! 1) ''_rowid'' = Some (Str ''ROWID1'')"
    using r unfolding row1 example_mdata .
  have sp: "metadata (parse (tokenize example_world) ''<HTML><title>Document 1</title></HTML>'' new_parser)
        ''_oid'' = Some ''spoofed''"
    by (simp add: example_world_parts example_parsed)
  have f: "fst (load example_world example_loader) = lg" by (simp add: ld)
  show ?thesis
    unfolding ed f
    by (intro conjI) (rule tab ld l2 sp o' r')+
qed


text \<open>
  Claim C9 as the spec words it speaks of every document. The extra columns are copied
  after the reserved keys are written, so a requested column named \<^verbatim>\<open>_oid\<close> (a name
  the identifier pattern admits) replaces the generated id by the column's value.
\<close>

theorem extra_column_named_oid_counterexample:
  "length example_docs_oid_col = 2
   \<and> doc_metadata (example_docs_oid_col ! 0) ''_oid'' = Some (Num 7)
   \<and> generateObjectId example_hash example_env
        (Some (oid_seed (Str ''TEST_USER'') ''TEST_USER'' ''test_table'' ''CONTENT_COLUMN''
                 (getprop example_row_plain ''ROWID'')))
       = Inr ''6553f100abcdef012345678901020304''"
proof -
  let ?l = "example_loader\<lparr>mdata_cols := Some [''_oid'']\<rparr>"
  have parts: "mdata_cols ?l = Some [''_oid'']" "loadFrom ?l = ''test_table''"
    "loadFromType ?l = TABLE" "owner ?l = Some ''TEST_USER''" "colname ?l = Some ''CONTENT_COLUMN''"
    by (simp_all add: example_parts)
  from example_load [OF parts example_catalog_phase_oid] obtain lg docs where
    c: "load example_world ?l = (lg, Inr docs)
      \<and> rows_documents example_world (Str ''TEST_USER'') ''TEST_USER'' ''test_table''
              ''CONTENT_COLUMN'' (Some [''_oid'']) 0 [example_row_plain, example_row_html] [] = Inr docs"
    by blast
  note ld = c [THEN conjunct1]
  note rd = c [THEN conjunct2]
  have ed: "example_docs_oid_col = docs" by (simp add: example_docs_oid_col_def docs_of_def ld)
  note dr = documents_of_rows [OF rd]
  have l2: "length docs = 2" using dr [THEN conjunct1] by simp
  then have k0: "0 < length docs" by simp
  have "row_document example_world (id_envs example_world 0) (Str ''TEST_USER'') ''TEST_USER''
       ''test_table'' ''CONTENT_COLUMN'' (Some [''_oid'']) ([example_row_plain, example_row_html] ! 0)
         = Inr (docs ! 0)"
    using dr [THEN conjunct2, rule_format, OF k0] .
  then have "row_document example_world (id_envs example_world 0) (Str ''TEST_USER'') ''TEST_USER''
       ''test_table'' ''CONTENT_COLUMN'' (Some [''_oid'']) example_row_plain = Inr (docs ! 0)"
    by simp
  from row_document_Inr [OF this] obtain oid where
    e: "generateObjectId (sha256 example_world) (id_envs example_world 0)
          (Some (oid_seed (Str ''TEST_USER'') ''TEST_USER'' ''test_table'' ''CONTENT_COLUMN''
                   (getprop example_row_plain ''ROWID''))) = Inr oid
      \<and> textual (getprop example_row_plain ''MDATA'')
      \<and> doc_metadata (docs ! 0)
       = with_cols (Some [''_oid'']) example_row_plain
           ((if html_signature (getprop example_row_plain ''MDATA'')
             then parsed_metadata (tokenize example_world) (getprop example_row_plain ''MDATA'')
             else Map.empty)
            (''_oid'' \<mapsto> Str oid, ''_rowid'' \<mapsto> getprop example_row_plain ''ROWID''))"
    by (elim exE) (rule that)
  have o: "doc_metadata (docs ! 0) ''_oid'' = Some (Num 7)"
    unfolding e [THEN conjunct2, THEN conjunct2]
    by (simp add: with_cols_listed cols_of_def example_mdata)
  have "oid_seed (Str ''TEST_USER'') ''TEST_USER'' ''test_table'' ''CONTENT_COLUMN''
                 (getprop example_row_plain ''ROWID'') \<noteq> []"
    by (simp add: oid_seed_def)
  note g = example_oid [OF this]
  show ?thesis
    unfolding ed
    by (intro conjI) (rule l2 o g)+
qed

lemma example_catalog_phase_nouser:
  "catalog_phase example_db_nouser ''TEST_USER'' ''test_table'' (Some [''ID''])
     = ([ColSql ''TEST_USER'' ''TEST_TABLE''], Inr '', t.ROWID AS ROWID, t.ID'')"
  by (simp add: catalog_phase_def execute_eq upper_examples example_colTypes check_col_def
        valid_examples pget_def supported_types_def del: isValidIdentifier.simps)


text \<open>The sample load against a database whose session-identity query returns no rows.\<close>

theorem unknown_user_fallback_witness:
  "no_user \<lparr> rows = Some [], outBinds = None \<rparr>
   \<and> getUsername example_db_nouser [] = ([UserSql], Inr (Str ''unknown_user''))
   \<and> snd (load (example_world\<lparr>db := example_db_nouser\<rparr>) example_loader) = Inr example_docs_nouser
   \<and> length example_docs_nouser = 2
   \<and> doc_metadata (example_docs_nouser ! 0) ''_oid''
       = Some (Str ''6553f100abcdef012345678901020304'')"
proof -
  let ?w = "example_world\<lparr>db := example_db_nouser\<rparr>"
  let ?ures = "\<lparr> rows = Some [], outBinds = None \<rparr>"
  let ?res = "\<lparr> rows = Some [example_row_plain, example_row_html], outBinds = None \<rparr>"
  let ?sql = "'', t.ROWID AS ROWID, t.ID''"
  let ?lg0 = "[ColSql ''TEST_USER'' ''TEST_TABLE'']"
  let ?m = "MainSql (mainSql ''CONTENT_COLUMN'' ?sql ''TEST_USER'' (loadFrom example_loader))
                        m_params_json"
  note inst = unknown_user_fallback [of example_db_nouser "[]" ?ures example_loader
      "''TEST_USER''" "''CONTENT_COLUMN''" ?w ?lg0 ?sql ?res]
  have nu: "no_user ?ures" by (simp add: no_user_def)
  have u0: "example_db_nouser (length ([] :: statement list)) UserSql = Inr ?ures" by simp
  have gu: "getUsername example_db_nouser [] = ([UserSql], Inr (Str ''unknown_user''))"
    using inst [THEN conjunct1, THEN mp, OF conjI [OF u0 nu]] by simp
  have rows_ok: "\<forall>k<length (rows_of ?res).
             textual (getprop (rows_of ?res ! k) ''MDATA'') \<and> clock_ok (id_envs ?w k)"
    using example_rows_ok [of example_db_nouser] by (simp add: rows_of_def)
  have hyp: "loadFromType example_loader = TABLE \<and> owner example_loader = Some ''TEST_USER''
       \<and> colname example_loader = Some ''CONTENT_COLUMN''
       \<and> isValidIdentifier ''TEST_USER'' \<and> isValidIdentifier (loadFrom example_loader)
       \<and> isValidIdentifier ''CONTENT_COLUMN''
       \<and> catalog_phase (db ?w) ''TEST_USER'' (loadFrom example_loader) (mdata_cols example_loader)
           = (?lg0, Inr ?sql)
       \<and> db ?w (length ?lg0) ?m = Inr ?res
       \<and> db ?w (Suc (length ?lg0)) UserSql = Inr ?ures \<and> no_user ?ures
       \<and> (\<forall>k<length (rows_of ?res).
             textual (getprop (rows_of ?res ! k) ''MDATA'') \<and> clock_ok (id_envs ?w k))"
    apply (intro conjI)
              apply (simp add: example_parts)
             apply (simp add: example_parts)
            apply (simp add: example_parts)
           apply (rule valid_examples)
          apply (simp add: example_parts valid_examples del: isValidIdentifier.simps)
         apply (rule valid_examples)
        apply (simp add: example_parts example_catalog_phase_nouser)
       apply simp
      apply simp
     apply (rule nu)
    apply (rule rows_ok)
    done
  from inst [THEN conjunct2, THEN mp, OF hyp] obtain docs where
    c: "load ?w example_loader = (?lg0 @ [?m, UserSql], Inr docs)
      \<and> length docs = length (rows_of ?res)
      \<and> (\<forall>k<length docs. \<exists>oid.
                 generateObjectId (sha256 ?w) (id_envs ?w k)
                   (Some (''unknown_user$'' @ ''TEST_USER'' @ ''$'' @ loadFrom example_loader @ ''$''
                          @ ''CONTENT_COLUMN'' @ ''$''
                          @ toString (getprop (rows_of ?res ! k) ''ROWID''))) = Inr oid
               \<and> (''_oid'' \<notin> set (cols_of (mdata_cols example_loader))
                    \<longrightarrow> doc_metadata (docs ! k) ''_oid'' = Some (Str oid)))"
    by (elim exE) (rule that)
  note ld = c [THEN conjunct1]
  note len = c [THEN conjunct2, THEN conjunct1]
  note all = c [THEN conjunct2, THEN conjunct2]
  have ed: "example_docs_nouser = docs" by (simp add: example_docs_nouser_def docs_of_def ld)
  have l2: "length docs = 2" using len by (simp add: rows_of_def)
  then have k0: "0 < length docs" by simp
  have free: "''_oid'' \<notin> set (cols_of (mdata_cols example_loader))"
    by (simp add: example_parts cols_of_def)
  from all [rule_format, OF k0] obtain oid where
    e: "generateObjectId (sha256 ?w) (id_envs ?w 0)
                   (Some (''unknown_user$'' @ ''TEST_USER'' @ ''$'' @ loadFrom example_loader @ ''$''
                          @ ''CONTENT_COLUMN'' @ ''$''
                          @ toString (getprop (rows_of ?res ! 0) ''ROWID''))) = Inr oid
               \<and> (''_oid'' \<notin> set (cols_of (mdata_cols example_loader))
                    \<longrightarrow> doc_metadata (docs ! 0) ''_oid'' = Some (Str oid))"
    by (elim exE) (rule that)
  have g: "generateObjectId example_hash example_env
                   (Some (''unknown_user$'' @ ''TEST_USER'' @ ''$'' @ loadFrom example_loader @ ''$''
                          @ ''CONTENT_COLUMN'' @ ''$''
                          @ toString (getprop (rows_of ?res ! 0) ''ROWID''))) = Inr oid"
    using e [THEN conjunct1] by (simp add: example_world_def)
  have o: "doc_metadata (docs ! 0) ''_oid'' = Some (Str oid)"
    using e [THEN conjunct2] free by (rule mp)
  have "''unknown_user$'' @ ''TEST_USER'' @ ''$'' @ loadFrom example_loader @ ''$''
                          @ ''CONTENT_COLUMN'' @ ''$''
                          @ toString (getprop (rows_of ?res ! 0) ''ROWID'') \<noteq> []"
    by simp
  from example_oid [OF this] g have oid: "oid = ''6553f100abcdef012345678901020304''" by simp
  have o': "doc_metadata (docs ! 0) ''_oid'' = Some (Str ''6553f100abcdef012345678901020304'')"
    using o unfolding oid .
  have s: "snd (load ?w example_loader) = Inr docs" by (simp add: ld)
  show ?thesis
    unfolding ed
    by (intro conjI) (rule nu gu s l2 o')+
qed

section \<open>Properties of the file path\<close>

lemma readFile_try_read_fails:
  "fs_readFile fe filePath = Inl ex \<Longrightarrow> readFile_try w fe filePath pref = ([], Inl ex)"
  by (simp add: readFile_try_def)

lemma readFile_try_extract_fails:
  "fs_readFile fe filePath = Inr (Some dat) \<Longrightarrow> db w 0 (ExtractSql dat pref) = Inl ex \<Longrightarrow>
     readFile_try w fe filePath pref = ([ExtractSql dat pref], Inl ex)"
  by (simp add: readFile_try_def execute_eq)

lemma readFile_caught:
  "readFile_try w fe filePath pref = (lg, Inl ex) \<Longrightarrow>
     readFile w fe filePath pref
       = (lg, [''An exception occurred: '' @ describe ex, ''Skip processing '' @ filePath], None)"
  by (simp add: readFile_def)

text \<open>
  Claim C8. In \<^verbatim>\<open>readFile\<close>, an error of the file read, a rejection of the
  text-extraction call, and indeed any exception that leaves the \<^verbatim>\<open>try\<close> block, is
  caught: two lines are logged (the exception, and that the file is skipped) and the call
  returns \<^verbatim>\<open>null\<close> instead of propagating the error.
\<close>

theorem readFile_swallows_exceptions:
  "(fs_readFile fe filePath = Inl ex
      \<longrightarrow> readFile w fe filePath pref
            = ([], [''An exception occurred: '' @ describe ex, ''Skip processing '' @ filePath],
               None))
   \<and> (fs_readFile fe filePath = Inr (Some dat) \<and> db w 0 (ExtractSql dat pref) = Inl ex
      \<longrightarrow> readFile w fe filePath pref
            = ([ExtractSql dat pref],
               [''An exception occurred: '' @ describe ex, ''Skip processing '' @ filePath], None))
   \<and> (readFile_try w fe filePath pref = (lg, Inl ex)
      \<longrightarrow> readFile w fe filePath pref
            = (lg, [''An exception occurred: '' @ describe ex, ''Skip processing '' @ filePath],
               None))"
proof (intro conjI impI)
  assume "fs_readFile fe filePath = Inl ex"
  then show "readFile w fe filePath pref
            = ([], [''An exception occurred: '' @ describe ex, ''Skip processing '' @ filePath],
               None)"
    by (rule readFile_try_read_fails [THEN readFile_caught])
next
  assume "fs_readFile fe filePath = Inr (Some dat) \<and> db w 0 (ExtractSql dat pref) = Inl ex"
  then have "readFile_try w fe filePath pref = ([ExtractSql dat pref], Inl ex)"
    using readFile_try_extract_fails by blast
  then show "readFile w fe filePath pref
            = ([ExtractSql dat pref],
               [''An exception occurred: '' @ describe ex, ''Skip processing '' @ filePath], None)"
    by (rule readFile_caught)
next
  assume "readFile_try w fe filePath pref = (lg, Inl ex)"
  then show "readFile w fe filePath pref
            = (lg, [''An exception occurred: '' @ describe ex, ''Skip processing '' @ filePath],
               None)"
    by (rule readFile_caught)
qed

text \<open>A file that cannot be read, and a file whose extraction the database rejects.\<close>

theorem readFile_swallows_exceptions_witness:
  "readFile example_world example_file_env ''missing.pdf'' m_params_json
     = ([], [''An exception occurred: '' @ ''ENOENT'', ''Skip processing '' @ ''missing.pdf''], None)
   \<and> readFile example_world example_file_env ''report.pdf'' m_params_json
     = ([ExtractSql [37, 80, 68, 70] m_params_json],
        [''An exception occurred: '' @ ''ORA-29400'', ''Skip processing '' @ ''report.pdf''], None)"
proof -
  have r1: "fs_readFile example_file_env ''missing.pdf'' = Inl (Thrown ''ENOENT'')"
    by (simp add: example_file_env_def)
  have r2: "fs_readFile example_file_env ''report.pdf'' = Inr (Some [37, 80, 68, 70])
      \<and> db example_world 0 (ExtractSql [37, 80, 68, 70] m_params_json) = Inl (Thrown ''ORA-29400'')"
    by (simp add: example_file_env_def example_world_def)
  note a = readFile_swallows_exceptions [of example_file_env "''missing.pdf''" "Thrown ''ENOENT''"
      example_world m_params_json, THEN conjunct1, THEN mp, OF r1]
  note b = readFile_swallows_exceptions [of example_file_env "''report.pdf''" "Thrown ''ORA-29400''"
      example_world m_params_json "[37, 80, 68, 70]", THEN conjunct2, THEN conjunct1, THEN mp, OF r2]
  from a b show ?thesis by simp
qed


end
